theory Spec2Isabelle
  imports Main "HOL-Library.Sublist" "HOL-Library.Char_ord" "HOL-Library.List_Lexorder"
begin

section \<open>Data model of package workspace (dir.go, workspace.go)\<close>

text \<open>
  Go strings are byte sequences; they are modelled as \<^typ>\<open>string\<close> (a list of 8-bit
  characters), so \<open>len\<close> is \<^const>\<open>length\<close>. \<open>DirType\<close> is a Go \<open>int\<close> with the five
  constants of the \<open>iota + 1\<close> block; no arithmetic on it can overflow, so it is an
  \<^typ>\<open>int\<close> here. An \<open>error\<close> value is its message. A run-time panic is a value of its
  own, so that a function that can panic returns \<open>panic + 'a\<close>.
\<close>

type_synonym DirType = int

definition Cache :: DirType where "Cache = 1"
definition Config :: DirType where "Config = 2"
definition Home :: DirType where "Home = 3"
definition Workspace :: DirType where "Workspace = 4"
definition Temp :: DirType where "Temp = 5"

lemmas DirType_defs = Cache_def Config_def Home_def Workspace_def Temp_def

datatype error = Error string

datatype panic = NilDereference | IndexOutOfRange

record Dir =
  dirType :: DirType
  path :: string
  aliases :: "string list"

text \<open>
  \<open>AppDirs\<close>: five optional descriptors (\<open>*Dir\<close>, \<open>nil\<close> is \<open>None\<close>) and the two keyword
  maps. A \<open>nil\<close> map and an empty map read alike (a missing key reads as the empty
  string, \<open>len\<close> is 0), and every write of the source is preceded by \<open>make\<close>, so both
  are the empty map here. The field \<open>keywords\<close> is named \<open>keywordsMap\<close> (the source's name is
  reserved in Isabelle).
\<close>

record AppDirs =
  cache :: "Dir option"
  config :: "Dir option"
  home :: "Dir option"
  temp :: "Dir option"
  workspace :: "Dir option"
  keywordsMap :: "string \<rightharpoonup> string"
  keywordsReverse :: "string \<rightharpoonup> string"

definition AppDirs_zero :: AppDirs where
  "AppDirs_zero = \<lparr>cache = None, config = None, home = None, temp = None, workspace = None,
     keywordsMap = Map.empty, keywordsReverse = Map.empty\<rparr>"

section \<open>The Go library as the package uses it\<close>

text \<open>
  The functions of \<open>strings\<close>, \<open>path/filepath\<close> and \<open>os\<close> that the package calls, with
  the behaviour the Go documentation gives them on a platform whose path separator is
  \<open>/\<close> and that has no volume names (every \<open>GOOS\<close> but \<open>windows\<close>).
\<close>

subsection \<open>strings\<close>

definition strings_HasPrefix :: "string \<Rightarrow> string \<Rightarrow> bool" where
  "strings_HasPrefix s p = prefix p s"

definition strings_TrimSuffix :: "string \<Rightarrow> string \<Rightarrow> string" where
  "strings_TrimSuffix s suf = (if suffix suf s then take (length s - length suf) s else s)"

text \<open>\<open>strings.Split(s, sep)\<close> for a separator of one byte: n separators give n+1 pieces.\<close>

fun strings_Split :: "string \<Rightarrow> char \<Rightarrow> string list" where
  "strings_Split [] sep = [[]]"
| "strings_Split (x # xs) sep =
     (if x = sep then [] # strings_Split xs sep
      else (case strings_Split xs sep of
              [] \<Rightarrow> [[x]]
            | piece # pieces \<Rightarrow> (x # piece) # pieces))"

fun strings_Join :: "string list \<Rightarrow> string \<Rightarrow> string" where
  "strings_Join [] sep = []"
| "strings_Join [x] sep = x"
| "strings_Join (x # y # ys) sep = x @ sep @ strings_Join (y # ys) sep"

text \<open>
  The width in bytes of the UTF-8 sequence at the head of a string, as
  \<open>utf8.DecodeRuneInString\<close> reports it (1 for an invalid or truncated sequence).
  \<open>strings.Replace\<close> steps by it when the old string is empty.
\<close>

fun continuation :: "string \<Rightarrow> (nat \<times> nat) list \<Rightarrow> bool" where
  "continuation cs [] = True"
| "continuation [] (r # rs) = False"
| "continuation (c # cs) ((lo, hi) # rs) =
     (lo \<le> of_char c \<and> of_char c \<le> hi \<and> continuation cs rs)"

fun runeWidth :: "string \<Rightarrow> nat" where
  "runeWidth [] = 0"
| "runeWidth (c # cs) =
     (let x = (of_char c :: nat) in
      if x < 0xC2 then 1
      else if x < 0xE0 then (if continuation cs [(0x80, 0xBF)] then 2 else 1)
      else if x = 0xE0 then (if continuation cs [(0xA0, 0xBF), (0x80, 0xBF)] then 3 else 1)
      else if x < 0xED then (if continuation cs [(0x80, 0xBF), (0x80, 0xBF)] then 3 else 1)
      else if x = 0xED then (if continuation cs [(0x80, 0x9F), (0x80, 0xBF)] then 3 else 1)
      else if x < 0xF0 then (if continuation cs [(0x80, 0xBF), (0x80, 0xBF)] then 3 else 1)
      else if x = 0xF0 then
        (if continuation cs [(0x90, 0xBF), (0x80, 0xBF), (0x80, 0xBF)] then 4 else 1)
      else if x < 0xF4 then
        (if continuation cs [(0x80, 0xBF), (0x80, 0xBF), (0x80, 0xBF)] then 4 else 1)
      else if x = 0xF4 then
        (if continuation cs [(0x80, 0x8F), (0x80, 0xBF), (0x80, 0xBF)] then 4 else 1)
      else 1)"

text \<open>
  \<open>strings.Replace(s, old, new, n)\<close>: the first \<open>n\<close> non-overlapping occurrences of \<open>old\<close>,
  leftmost first, all of them when \<open>n < 0\<close>. An empty \<open>old\<close> matches before the first
  rune and after every rune.
\<close>

function replaceOccurrences :: "string \<Rightarrow> string \<Rightarrow> string \<Rightarrow> int \<Rightarrow> string" where
  "replaceOccurrences old new s n =
     (if n = 0 \<or> s = [] \<or> old = [] then s
      else if prefix old s then new @ replaceOccurrences old new (drop (length old) s) (n - 1)
      else hd s # replaceOccurrences old new (tl s) n)"
  by pat_completeness auto
termination
  by (relation "measure (\<lambda>(old, new, s, n). length s)") auto

declare replaceOccurrences.simps [simp del]

function replaceEmpty :: "string \<Rightarrow> string \<Rightarrow> int \<Rightarrow> string" where
  "replaceEmpty new s n =
     (if n = 0 then s
      else if s = [] then new
      else new @ take (runeWidth s) s @ replaceEmpty new (drop (runeWidth s) s) (n - 1))"
  by pat_completeness auto
termination
  by (relation "measure (\<lambda>(new, s, n). length s)") (auto split: if_splits simp: Let_def neq_Nil_conv)

declare replaceEmpty.simps [simp del]

definition strings_Replace :: "string \<Rightarrow> string \<Rightarrow> string \<Rightarrow> int \<Rightarrow> string" where
  "strings_Replace s old new n =
     (if old = new \<or> n = 0 then s
      else if old = [] then replaceEmpty new s n
      else replaceOccurrences old new s n)"

definition strings_ReplaceAll :: "string \<Rightarrow> string \<Rightarrow> string \<Rightarrow> string" where
  "strings_ReplaceAll s old new = strings_Replace s old new (- 1)"

subsection \<open>path/filepath\<close>

definition filepath_IsAbs :: "string \<Rightarrow> bool" where
  "filepath_IsAbs p = strings_HasPrefix p ''/''"

definition filepath_VolumeName :: "string \<Rightarrow> string" where
  "filepath_VolumeName p = ''''"

text \<open>
  \<open>Clean\<close>: the elements of the path are read from left to right onto a stack (its top
  is the head of the list). Empty elements and \<open>.\<close> are dropped; \<open>..\<close> removes the
  element before it when that is a name, is dropped at the root, and is kept at the
  front of a relative path. The result of an empty stack is \<open>/\<close> or \<open>.\<close>.
\<close>

definition cleanStep :: "bool \<Rightarrow> string list \<Rightarrow> string \<Rightarrow> string list" where
  "cleanStep rooted st c =
     (if c = '''' \<or> c = ''.'' then st
      else if c = ''..'' then
        (if st \<noteq> [] \<and> hd st \<noteq> ''..'' then tl st
         else if \<not> rooted then ''..'' # st
         else st)
      else c # st)"

definition cleanRender :: "bool \<Rightarrow> string list \<Rightarrow> string" where
  "cleanRender rooted st =
     (if rooted then ''/'' @ strings_Join (rev st) ''/''
      else if st = [] then ''.''
      else strings_Join (rev st) ''/'')"

definition filepath_Clean :: "string \<Rightarrow> string" where
  "filepath_Clean p =
     cleanRender (filepath_IsAbs p) (foldl (cleanStep (filepath_IsAbs p)) [] (strings_Split p CHR ''/''))"

text \<open>\<open>Join\<close> ignores leading empty elements and cleans the rest joined by separators.\<close>

definition filepath_Join :: "string list \<Rightarrow> string" where
  "filepath_Join elem =
     (case dropWhile (\<lambda>e. e = '''') elem of
        [] \<Rightarrow> ''''
      | e # es \<Rightarrow> filepath_Clean (strings_Join (e # es) ''/''))"

text \<open>\<open>Split\<close> cuts after the last separator; \<open>Dir\<close> cleans the first part.\<close>

definition filepath_Split :: "string \<Rightarrow> string \<times> string" where
  "filepath_Split p =
     (let file = rev (takeWhile (\<lambda>c. c \<noteq> CHR ''/'') (rev p))
      in (take (length p - length file) p, file))"

definition filepath_Dir :: "string \<Rightarrow> string" where
  "filepath_Dir p = filepath_Clean (fst (filepath_Split p))"

text \<open>
  \<open>Rel\<close>: both paths are cleaned; equal paths give \<open>.\<close>; a rooted and an unrooted path
  have no relative form. Otherwise the common leading elements are skipped. A base
  element \<open>..\<close> right behind them is an error, also when nothing is left of the target
  (\<open>Rel("../..", "..")\<close> fails); every base element left costs one \<open>..\<close>, followed by
  what is left of the target.
\<close>

definition relElements :: "string \<Rightarrow> string list" where
  "relElements p = (if p = '''' then [] else if p = ''/'' then [''''] else strings_Split p CHR ''/'')"

fun relLoop :: "string list \<Rightarrow> string list \<Rightarrow> (string list \<times> string list) option" where
  "relLoop (b # bs) (t # ts) =
     (if b = t then relLoop bs ts else if b = ''..'' then None else Some (b # bs, t # ts))"
| "relLoop (b # bs) [] = (if b = ''..'' then None else Some (b # bs, []))"
| "relLoop [] ts = Some ([], ts)"

definition filepath_Rel :: "string \<Rightarrow> string \<Rightarrow> error + string" where
  "filepath_Rel basepath targpath =
     (let base = filepath_Clean basepath;
          targ = filepath_Clean targpath;
          failure = Inl (Error (''Rel: can't make '' @ targpath @ '' relative to '' @ basepath))
      in if targ = base then Inr ''.''
         else let base = (if base = ''.'' then '''' else base)
           in if filepath_IsAbs base \<noteq> filepath_IsAbs targ then failure
              else (case relLoop (relElements base) (relElements targ) of
                      None \<Rightarrow> failure
                    | Some (bs, ts) \<Rightarrow>
                        if bs \<noteq> [] then
                          Inr (strings_Join (replicate (length bs) ''..'' @
                                 (if ts \<noteq> [] then [strings_Join ts ''/''] else [])) ''/'')
                        else Inr (strings_Join ts ''/'')))"

subsection \<open>os and runtime\<close>

text \<open>
  What the package reads from the process and the operating system. \<open>Stat\<close> answers with
  \<open>IsDir()\<close> of the file or with an error. Every call that touches the file system is
  recorded, in order, next to the result of the function that made it.
\<close>

record Env =
  GOOS :: string
  Args0 :: string
  Getwd :: "error + string"
  UserCacheDir :: "error + string"
  UserHomeDir :: "error + string"
  TempDir :: string
  Stat :: "string \<Rightarrow> error + bool"
  Mkdir :: "string \<Rightarrow> error option"
  RemoveAll :: "string \<Rightarrow> error option"

datatype fscall = CallStat string | CallMkdir string | CallRemoveAll string

section \<open>dir.go\<close>

subsection \<open>DirType.String\<close>

text \<open>dir.go: the guard excludes every value outside 1..5, the array is indexed by \<open>d-1\<close>.\<close>

definition String :: "DirType \<Rightarrow> string" where
  "String d =
     (if d < Cache \<or> d > Temp then ''''
      else [''cache'', ''config'', ''home'', ''workspace'', ''temp''] ! nat (d - 1))"

text \<open>
  The older single-file copy of the package (first half of workspace.go) indexes the same
  array by \<open>d\<close>; an index of 5 is out of range there and panics.
\<close>

definition String_workspace_go :: "DirType \<Rightarrow> panic + string" where
  "String_workspace_go d =
     (if d < Cache \<or> d > Temp then Inr ''''
      else if nat d < 5 then Inr ([''cache'', ''config'', ''home'', ''workspace'', ''temp''] ! nat d)
      else Inl IndexOutOfRange)"

subsection \<open>Default aliases\<close>

text \<open>
  What the package-level tables hold once \<open>init()\<close> has run: \<open>init\<close> appends \<open>~\<close> to
  \<open>defaultHome\<close> unless \<open>GOOS\<close> is \<open>windows\<close>. The tables are variables of slice type and
  their arrays can be written through the descriptors made from them; the tables as
  variables are the subject of the last subsection on dir.go.
\<close>

definition defaultCache :: "string list" where
  "defaultCache = [''$CACHE'', ''${CACHE}'']"

definition defaultConfig :: "string list" where
  "defaultConfig = []"

definition defaultHome :: "Env \<Rightarrow> string list" where
  "defaultHome env =
     [''$HOME'', ''${HOME}''] @ (if GOOS env \<noteq> ''windows'' then [''~''] else [])"

definition defaultTemp :: "string list" where
  "defaultTemp = [''$TEMP'', ''${TEMP}'', ''$TMP'', ''${TMP}'', ''$TMPDIR'', ''${TMPDIR}'',
     ''$TEMPDIR'', ''${TEMPDIR}'']"

definition defaultWorkspace :: "string list" where
  "defaultWorkspace = [''$workspaceRoot'', ''${workspaceRoot}'', ''$PWD'', ''${PWD}'']"

subsection \<open>Options\<close>

text \<open>The method \<open>apply\<close> of an option is \<open>applyOption\<close> (\<open>apply\<close> is reserved in Isabelle).\<close>

datatype Option = WithAliases "string list" | WithPath string

record options =
  opt_path :: string
  opt_aliases :: "string list"

fun applyOption :: "Option \<Rightarrow> options \<Rightarrow> options" where
  "applyOption (WithAliases als) opts = opts\<lparr>opt_aliases := als\<rparr>"
| "applyOption (WithPath p) opts = opts\<lparr>opt_path := p\<rparr>"

fun exists :: "string list \<Rightarrow> string \<Rightarrow> bool" where
  "exists [] item = False"
| "exists (a # arr) item = (if a = item then True else exists arr item)"

subsection \<open>Root\<close>

text \<open>
  The loop of \<open>Root\<close>. It has no bound of its own: it ends when a \<open>.git\<close> directory is
  found or the directory has become a root, so the result is optional and \<open>None\<close>
  stands for a run that never returns. The trace holds the \<open>os.Stat\<close> calls made so far.
\<close>

partial_function (option) rootSearch ::
  "Env \<Rightarrow> string \<Rightarrow> bool \<Rightarrow> fscall list \<Rightarrow> ((error + string) \<times> fscall list) option" where
  "rootSearch env dir isRoot tr =
     (if Stat env (filepath_Join [dir, ''.git'']) = Inr True
      then Some (Inr dir, tr @ [CallStat (filepath_Join [dir, ''.git''])])
      else if isRoot
      then Some (Inl (Error ''cannot identify workspace root (no .git repository found)''),
                 tr @ [CallStat (filepath_Join [dir, ''.git''])])
      else rootSearch env (filepath_Dir dir)
             (filepath_Dir dir = filepath_VolumeName (filepath_Dir dir) @ ''/'' \<or>
              filepath_Dir dir = ''/'')
             (tr @ [CallStat (filepath_Join [dir, ''.git''])]))"

declare rootSearch.simps [code]

definition Root :: "Env \<Rightarrow> string \<Rightarrow> ((error + string) \<times> fscall list) option" where
  "Root env appName =
     (let cmd = snd (filepath_Split (Args0 env)) in
      case Getwd env of
        Inl e \<Rightarrow> Some (Inl e, [])
      | Inr dir \<Rightarrow> if cmd = appName then Some (Inr dir, []) else rootSearch env dir False [])"

subsection \<open>NewDir\<close>

text \<open>
  The path a \<open>NewDir\<close> without \<open>WithPath\<close> gets, and the error of the lookup if any. A
  failed lookup of the library leaves the empty string in the path.
\<close>

definition defaultPath ::
  "Env \<Rightarrow> DirType \<Rightarrow> string \<Rightarrow> ((string \<times> error option) \<times> fscall list) option" where
  "defaultPath env dt appName =
     (if dt = Cache then
        (case UserCacheDir env of
           Inr p \<Rightarrow> Some ((filepath_Join [p, appName], None), [])
         | Inl e \<Rightarrow> Some ((filepath_Join ['''', appName], Some e), []))
      else if dt = Config \<or> dt = Workspace then
        (case Root env appName of
           None \<Rightarrow> None
         | Some (Inr p, tr) \<Rightarrow> Some ((p, None), tr)
         | Some (Inl e, tr) \<Rightarrow> Some (('''', Some e), tr))
      else if dt = Home then
        (case UserHomeDir env of
           Inr p \<Rightarrow> Some ((p, None), [])
         | Inl e \<Rightarrow> Some (('''', Some e), []))
      else if dt = Temp then Some ((filepath_Join [TempDir env, appName], None), [])
      else Some (('''', None), []))"

definition defaultAliases :: "Env \<Rightarrow> DirType \<Rightarrow> string list" where
  "defaultAliases env dt =
     (if dt = Cache then defaultCache
      else if dt = Config then defaultConfig
      else if dt = Workspace then defaultWorkspace
      else if dt = Home then defaultHome env
      else if dt = Temp then defaultTemp
      else [])"

definition NewDir ::
  "Env \<Rightarrow> DirType \<Rightarrow> string \<Rightarrow> Option list \<Rightarrow> ((error + Dir) \<times> fscall list) option" where
  "NewDir env dt appName opts =
     (let options = foldl (\<lambda>acc opt. applyOption opt acc) \<lparr>opt_path = '''', opt_aliases = []\<rparr> opts;
          finish = (\<lambda>p. \<lparr>dirType = dt, path = filepath_Clean p,
                          aliases = (if length (opt_aliases options) = 0
                                     then defaultAliases env dt else opt_aliases options)\<rparr>)
      in if opt_path options \<noteq> '''' then
           (if \<not> filepath_IsAbs (opt_path options)
            then Some (Inl (Error (''cannot process relative path: '' @ opt_path options)), [])
            else Some (Inr (finish (opt_path options)), []))
         else
           (case defaultPath env dt appName of
              None \<Rightarrow> None
            | Some ((p, Some e), tr) \<Rightarrow>
                Some (Inl (Error (''cannot initialize directory: '' @ String dt)), tr)
            | Some ((p, None), tr) \<Rightarrow> Some (Inr (finish p), tr)))"

subsection \<open>Aliases of a descriptor\<close>

definition Aliases :: "Dir \<Rightarrow> string list" where
  "Aliases d = aliases d"

text \<open>\<open>sort.Strings\<close> orders byte-wise, which is the order of \<^typ>\<open>string\<close> here.\<close>

definition AppendAliases :: "Dir \<Rightarrow> string list \<Rightarrow> Dir" where
  "AppendAliases d als =
     d\<lparr>aliases := sort (foldl (\<lambda>cur a. if \<not> exists cur a then cur @ [a] else cur) (aliases d) als)\<rparr>"

definition RemoveAliases :: "Dir \<Rightarrow> string list \<Rightarrow> Dir" where
  "RemoveAliases d als = d\<lparr>aliases := foldl (\<lambda>cur a. remove1 a cur) (aliases d) als\<rparr>"

text \<open>
  \<open>AbsPath\<close>: a leading \<open>~\<close> becomes the home directory (or stays when the lookup fails);
  an absolute path is cleaned, any other is joined to the base.
\<close>

definition AbsPath :: "Env \<Rightarrow> string \<Rightarrow> string \<Rightarrow> string" where
  "AbsPath env base p =
     (let p' = (if GOOS env \<noteq> ''windows'' \<and> strings_HasPrefix p ''~''
                then strings_Replace p ''~''
                       (case UserHomeDir env of Inr dir \<Rightarrow> dir | Inl e \<Rightarrow> ''~'') 1
                else p)
      in if filepath_IsAbs p' then filepath_Clean p'
         else filepath_Clean (filepath_Join [base, p']))"

subsection \<open>The alias tables as slices\<close>

text \<open>
  The five tables are package-level variables of slice type, and a slice is a window on a
  backing array. \<open>NewDir\<close> stores the table itself in the descriptor it returns, not a copy,
  so the descriptor and the variable share one array; \<open>AppendAliases\<close> and \<open>RemoveAliases\<close>
  write into the array of the descriptor they are called on. The definitions above
  describe a descriptor by the strings its slice holds and the tables by what they hold
  once \<open>init()\<close> has run, which is what the program computes as long as no descriptor
  that shares an array with a table or with another descriptor is changed. The
  definitions below keep the arrays in a store, so that the effect of a call on the tables
  and on the other descriptors can be followed.

  A slice names its array in the store, the offset of its first element, its length and
  its capacity. The package state holds the arrays and the five variables.
\<close>

record slice =
  sliceArray :: nat
  sliceOff :: nat
  sliceLen :: nat
  sliceCap :: nat

record Package =
  arrays :: "string list list"
  var_defaultCache :: slice
  var_defaultConfig :: slice
  var_defaultHome :: slice
  var_defaultTemp :: slice
  var_defaultWorkspace :: slice

definition arrayOf :: "Package \<Rightarrow> nat \<Rightarrow> string list" where
  "arrayOf P i = (if i < length (arrays P) then arrays P ! i else [])"

definition elems :: "Package \<Rightarrow> slice \<Rightarrow> string list" where
  "elems P s = take (sliceLen s) (drop (sliceOff s) (arrayOf P (sliceArray s)))"

text \<open>
  Writing the strings \<open>xs\<close> over the elements \<open>i\<close>, \<open>i+1\<close>, ... of a slice changes its array
  in place. Every use below stays within the capacity of the slice.
\<close>

definition writeElems :: "Package \<Rightarrow> slice \<Rightarrow> nat \<Rightarrow> string list \<Rightarrow> Package" where
  "writeElems P s i xs =
     (let arr = arrayOf P (sliceArray s)
      in P\<lparr>arrays := (arrays P)[sliceArray s :=
              take (sliceOff s + i) arr @ xs @ drop (sliceOff s + i + length xs) arr]\<rparr>)"

definition newArray :: "Package \<Rightarrow> string list \<Rightarrow> Package \<times> slice" where
  "newArray P xs =
     (P\<lparr>arrays := arrays P @ [xs]\<rparr>,
      \<lparr>sliceArray = length (arrays P), sliceOff = 0, sliceLen = length xs, sliceCap = length xs\<rparr>)"

text \<open>
  The built-in \<open>append\<close> of one element: below the capacity the element is written into the
  array of the slice; at the capacity the elements move to a new array. How large the new
  array is, is up to the runtime: \<open>grow\<close> gives the capacity for the old capacity and the
  length needed, and is never taken to be less than that length.
\<close>

definition go_append :: "(nat \<Rightarrow> nat \<Rightarrow> nat) \<Rightarrow> Package \<Rightarrow> slice \<Rightarrow> string \<Rightarrow> Package \<times> slice" where
  "go_append grow P s v =
     (if sliceLen s < sliceCap s
      then (writeElems P s (sliceLen s) [v], s\<lparr>sliceLen := sliceLen s + 1\<rparr>)
      else (let c = max (sliceLen s + 1) (grow (sliceCap s) (sliceLen s + 1));
                fresh = newArray P (elems P s @ [v] @ replicate (c - (sliceLen s + 1)) '''')
            in (fst fresh, (snd fresh)\<lparr>sliceLen := sliceLen s + 1\<rparr>)))"

text \<open>
  The package once its variables are initialised and \<open>init()\<close> has run: each table fills
  the array of its literal; \<open>init\<close> appends \<open>~\<close> to \<open>defaultHome\<close> unless \<open>GOOS\<close> is
  \<open>windows\<close>, which moves that table to a new array.
\<close>

definition literal :: "nat \<Rightarrow> string list \<Rightarrow> slice" where
  "literal i xs = \<lparr>sliceArray = i, sliceOff = 0, sliceLen = length xs, sliceCap = length xs\<rparr>"

definition initPackage :: "(nat \<Rightarrow> nat \<Rightarrow> nat) \<Rightarrow> Env \<Rightarrow> Package" where
  "initPackage grow env =
     (let P = \<lparr>arrays = [defaultCache, defaultConfig, [''$HOME'', ''${HOME}''], defaultTemp,
                          defaultWorkspace],
               var_defaultCache = literal 0 defaultCache,
               var_defaultConfig = literal 1 defaultConfig,
               var_defaultHome = literal 2 [''$HOME'', ''${HOME}''],
               var_defaultTemp = literal 3 defaultTemp,
               var_defaultWorkspace = literal 4 defaultWorkspace\<rparr>
      in if GOOS env \<noteq> ''windows''
         then (let appended = go_append grow P (var_defaultHome P) ''~''
               in (fst appended)\<lparr>var_defaultHome := snd appended\<rparr>)
         else P)"

text \<open>
  A descriptor with its aliases as a slice, and the options of \<open>NewDir\<close> with the slice
  that \<open>WithAliases\<close> was given.
\<close>

record DirSlice =
  ds_dirType :: DirType
  ds_path :: string
  ds_aliases :: slice

datatype OptionSlice = WithAliasesSlice slice | WithPathSlice string

fun optionValue :: "Package \<Rightarrow> OptionSlice \<Rightarrow> Option" where
  "optionValue P (WithAliasesSlice s) = WithAliases (elems P s)"
| "optionValue P (WithPathSlice p) = WithPath p"

fun applyOptionSlice :: "OptionSlice \<Rightarrow> slice \<Rightarrow> slice" where
  "applyOptionSlice (WithAliasesSlice s) cur = s"
| "applyOptionSlice (WithPathSlice p) cur = cur"

text \<open>
  \<open>NewDir\<close>: \<open>make([]string, 0)\<close> is a slice without capacity, so nothing is ever written
  through it. The path, the errors and the calls are those of \<open>NewDir\<close> above; with no
  alias given, the slice of the descriptor is the variable of its kind.
\<close>

definition NewDir_slice ::
  "Env \<Rightarrow> Package \<Rightarrow> DirType \<Rightarrow> string \<Rightarrow> OptionSlice list \<Rightarrow>
     ((error + DirSlice) \<times> fscall list) option" where
  "NewDir_slice env P dt appName opts =
     (let given = foldl (\<lambda>cur opt. applyOptionSlice opt cur)
                    \<lparr>sliceArray = 0, sliceOff = 0, sliceLen = 0, sliceCap = 0\<rparr> opts;
          chosen = (if sliceLen given = 0 then
                      (if dt = Cache then var_defaultCache P
                       else if dt = Config then var_defaultConfig P
                       else if dt = Workspace then var_defaultWorkspace P
                       else if dt = Home then var_defaultHome P
                       else if dt = Temp then var_defaultTemp P
                       else given)
                    else given)
      in case NewDir env dt appName (map (optionValue P) opts) of
           None \<Rightarrow> None
         | Some (Inl e, tr) \<Rightarrow> Some (Inl e, tr)
         | Some (Inr d, tr) \<Rightarrow>
             Some (Inr \<lparr>ds_dirType = dirType d, ds_path = path d, ds_aliases = chosen\<rparr>, tr))"

text \<open>\<open>Aliases\<close> copies the elements, so its result shares nothing.\<close>

definition Aliases_slice :: "Package \<Rightarrow> DirSlice \<Rightarrow> string list" where
  "Aliases_slice P d = elems P (ds_aliases d)"

text \<open>
  \<open>AppendAliases\<close> and \<open>RemoveAliases\<close> get their arguments as a slice as well (a table
  itself in \<open>Assign\<close>), and read its elements one by one while they write.
  \<open>append(d.aliases[:i], d.aliases[i+1:]...)\<close> of \<open>RemoveAliases\<close> stays within the capacity
  of \<open>d.aliases\<close>, so it moves the elements behind \<open>i\<close> one place down in the array and
  shortens the slice of the descriptor by one; the last place of the array keeps its
  string. \<open>sort.Strings\<close> sorts the elements of the slice in the array.
\<close>

definition AppendAliases_slice ::
  "(nat \<Rightarrow> nat \<Rightarrow> nat) \<Rightarrow> Package \<Rightarrow> DirSlice \<Rightarrow> slice \<Rightarrow> Package \<times> DirSlice" where
  "AppendAliases_slice grow P d args =
     (let appended =
            foldl (\<lambda>state i.
                     let a = elems (fst state) args ! i
                     in if \<not> exists (elems (fst state) (snd state)) a
                        then go_append grow (fst state) (snd state) a else state)
              (P, ds_aliases d) [0..<sliceLen args];
          sorted = writeElems (fst appended) (snd appended) 0
                     (sort (elems (fst appended) (snd appended)))
      in (sorted, d\<lparr>ds_aliases := snd appended\<rparr>))"

definition RemoveAliases_slice :: "Package \<Rightarrow> DirSlice \<Rightarrow> slice \<Rightarrow> Package \<times> DirSlice" where
  "RemoveAliases_slice P d args =
     (let removed =
            foldl (\<lambda>state j.
                     let a = elems (fst state) args ! j;
                         cur = elems (fst state) (snd state);
                         i = length (takeWhile (\<lambda>curr. a \<noteq> curr) cur)
                     in if exists cur a
                        then (writeElems (fst state) (snd state) i (drop (i + 1) cur),
                              (snd state)\<lparr>sliceLen := sliceLen (snd state) - 1\<rparr>)
                        else state)
              (P, ds_aliases d) [0..<sliceLen args]
      in (fst removed, d\<lparr>ds_aliases := snd removed\<rparr>))"

text \<open>A call with the arguments written out passes them in an array of its own.\<close>

definition AppendAliases_of ::
  "(nat \<Rightarrow> nat \<Rightarrow> nat) \<Rightarrow> Package \<Rightarrow> DirSlice \<Rightarrow> string list \<Rightarrow> Package \<times> DirSlice" where
  "AppendAliases_of grow P d als =
     AppendAliases_slice grow (fst (newArray P als)) d (snd (newArray P als))"

definition RemoveAliases_of :: "Package \<Rightarrow> DirSlice \<Rightarrow> string list \<Rightarrow> Package \<times> DirSlice" where
  "RemoveAliases_of P d als =
     RemoveAliases_slice (fst (newArray P als)) d (snd (newArray P als))"

section \<open>workspace.go\<close>

definition lookup :: "(string \<rightharpoonup> string) \<Rightarrow> string \<Rightarrow> string" where
  "lookup m k = (case m k of Some v \<Rightarrow> v | None \<Rightarrow> '''')"

text \<open>
  The inner loop shared by \<open>initKeywords\<close> and \<open>Assign\<close>: every alias maps forward to the
  path, the alias at index 0 becomes the reverse entry of the path.
\<close>

fun addAliases :: "string \<Rightarrow> nat \<Rightarrow> string list \<Rightarrow> AppDirs \<Rightarrow> AppDirs" where
  "addAliases p i [] a = a"
| "addAliases p i (alias # als) a =
     addAliases p (Suc i) als
       (a\<lparr>keywordsMap := (keywordsMap a)(alias \<mapsto> p),
          keywordsReverse := (if i = 0 then (keywordsReverse a)(p \<mapsto> alias) else keywordsReverse a)\<rparr>)"

definition registered :: "AppDirs \<Rightarrow> Dir list" where
  "registered a =
     (case cache a of Some d \<Rightarrow> [d] | None \<Rightarrow> []) @
     (case config a of Some d \<Rightarrow> [d] | None \<Rightarrow> []) @
     (case home a of Some d \<Rightarrow> [d] | None \<Rightarrow> []) @
     (case temp a of Some d \<Rightarrow> [d] | None \<Rightarrow> []) @
     (case workspace a of Some d \<Rightarrow> [d] | None \<Rightarrow> [])"

definition initKeywords :: "AppDirs \<Rightarrow> AppDirs" where
  "initKeywords a =
     foldl (\<lambda>a' d. addAliases (path d) 0 (Aliases d) a')
       (a\<lparr>keywordsMap := Map.empty, keywordsReverse := Map.empty\<rparr>) (registered a)"

definition withDefaults :: "Dir \<Rightarrow> string list \<Rightarrow> Dir" where
  "withDefaults d defaults = (if length (Aliases d) = 0 then AppendAliases d defaults else d)"

definition updateKeywords :: "bool \<Rightarrow> AppDirs \<Rightarrow> Dir \<Rightarrow> AppDirs" where
  "updateKeywords updated a d =
     (if updated then initKeywords a else addAliases (path d) 0 (Aliases d) a)"

definition Assign :: "Env \<Rightarrow> AppDirs \<Rightarrow> Dir \<Rightarrow> AppDirs" where
  "Assign env a d =
     (if dirType d = Cache then
        updateKeywords (cache a \<noteq> None) (a\<lparr>cache := Some (withDefaults d defaultCache)\<rparr>)
          (withDefaults d defaultCache)
      else if dirType d = Config then
        updateKeywords (config a \<noteq> None) (a\<lparr>config := Some (withDefaults d defaultConfig)\<rparr>)
          (withDefaults d defaultConfig)
      else if dirType d = Home then
        updateKeywords (home a \<noteq> None) (a\<lparr>home := Some (withDefaults d (defaultHome env))\<rparr>)
          (withDefaults d (defaultHome env))
      else if dirType d = Temp then
        updateKeywords (temp a \<noteq> None) (a\<lparr>temp := Some (withDefaults d defaultTemp)\<rparr>)
          (withDefaults d defaultTemp)
      else if dirType d = Workspace then
        updateKeywords (workspace a \<noteq> None)
          (a\<lparr>workspace := Some (withDefaults d defaultWorkspace)\<rparr>)
          (withDefaults d defaultWorkspace)
      else updateKeywords False a d)"

subsection \<open>Accessors of the registry\<close>

definition AppDirs_Cache :: "AppDirs \<Rightarrow> string" where
  "AppDirs_Cache a = (case cache a of Some d \<Rightarrow> path d | None \<Rightarrow> '''')"

text \<open>
  \<open>Config\<close> tests \<open>a.cache != nil\<close> and then reads \<open>a.config.Path()\<close>: with \<open>a.config\<close>
  \<open>nil\<close> that read dereferences a nil pointer.
\<close>

definition AppDirs_Config :: "AppDirs \<Rightarrow> panic + string" where
  "AppDirs_Config a =
     (if cache a \<noteq> None
      then (case config a of Some d \<Rightarrow> Inr (path d) | None \<Rightarrow> Inl NilDereference)
      else Inr '''')"

definition AppDirs_Home :: "AppDirs \<Rightarrow> string" where
  "AppDirs_Home a = (case home a of Some d \<Rightarrow> path d | None \<Rightarrow> '''')"

definition AppDirs_Temp :: "AppDirs \<Rightarrow> string" where
  "AppDirs_Temp a = (case temp a of Some d \<Rightarrow> path d | None \<Rightarrow> '''')"

definition AppDirs_Workspace :: "AppDirs \<Rightarrow> string" where
  "AppDirs_Workspace a = (case workspace a of Some d \<Rightarrow> path d | None \<Rightarrow> '''')"

subsection \<open>Path conversion\<close>

definition MakeAbsolute :: "Env \<Rightarrow> AppDirs \<Rightarrow> string \<Rightarrow> string \<Rightarrow> string" where
  "MakeAbsolute env a basePath input =
     (let segments = strings_Split input CHR ''/'';
          result = foldl (\<lambda>result segment.
                            let s = lookup (keywordsMap a) segment
                            in if s \<noteq> '''' then filepath_Join [result, s]
                               else filepath_Join [result, segment])
                     '''' segments;
          result = (if filepath_IsAbs input \<and> GOOS env \<noteq> ''windows'' \<and> \<not> filepath_IsAbs result
                    then [CHR ''/''] @ result else result)
      in AbsPath env basePath result)"

definition MakeRelative :: "Env \<Rightarrow> AppDirs \<Rightarrow> string \<Rightarrow> string \<Rightarrow> string" where
  "MakeRelative env a basePath input =
     (case filepath_Rel basePath (MakeAbsolute env a basePath input) of
        Inr rel \<Rightarrow> rel
      | Inl e \<Rightarrow> filepath_Clean input)"

text \<open>
  \<open>Parameterize\<close> ranges over the reverse map, and Go leaves the order of that
  iteration open: \<open>keys\<close> is the order in which the range statement visits the keys.
  The slice is made with \<open>len(a.keywordsReverse)\<close> zero items and the pairs are appended
  to it; \<open>sort.SliceStable\<close> then orders it by falling length of the key.
\<close>

definition orderedItems :: "string list \<Rightarrow> AppDirs \<Rightarrow> (string \<times> string) list" where
  "orderedItems keys a =
     sort_key (\<lambda>item. - int (length (fst item)))
       (replicate (length keys) ('''', '''') @
        map (\<lambda>k. (k, lookup (keywordsReverse a) k)) keys)"

definition Parameterize :: "string list \<Rightarrow> AppDirs \<Rightarrow> string \<Rightarrow> string \<Rightarrow> string" where
  "Parameterize keys a basePath input =
     (let input = foldl (\<lambda>inp item. strings_ReplaceAll inp (fst item) (snd item)) input
                    (orderedItems keys a);
          input = strings_TrimSuffix input ''/''
      in if \<not> filepath_IsAbs input then
           (case filepath_Rel basePath input of
              Inl err \<Rightarrow> filepath_Clean input
            | Inr result \<Rightarrow> result)
         else input)"

subsection \<open>The temp directory\<close>

text \<open>
  The three operations return their \<open>error\<close> (\<open>None\<close> is \<open>nil\<close>) or panic, together with
  the file-system calls they made.
\<close>

definition CreateTemp :: "Env \<Rightarrow> AppDirs \<Rightarrow> (panic + error option) \<times> fscall list" where
  "CreateTemp env a =
     (let p = AppDirs_Temp a in
      if p = '''' then (Inr (Some (Error ''cannot create temp directory, invalid state'')), [])
      else (case Stat env p of
              Inr isDir \<Rightarrow>
                if isDir then (Inr None, [CallStat p])
                else (Inr (Some (Error (''cannot create temp directory: '' @ [CHR 0x27] @ p @ [CHR 0x27]))),
                      [CallStat p])
            | Inl e \<Rightarrow>
                (case Mkdir env p of
                   Some e' \<Rightarrow> (Inr (Some (Error (''cannot create temp directory: '' @ p))),
                               [CallStat p, CallMkdir p])
                 | None \<Rightarrow> (Inr None, [CallStat p, CallMkdir p]))))"

definition RemoveTemp :: "Env \<Rightarrow> AppDirs \<Rightarrow> string \<Rightarrow> (panic + error option) \<times> fscall list" where
  "RemoveTemp env a subdir =
     (case temp a of
        None \<Rightarrow> (Inl NilDereference, [])
      | Some t \<Rightarrow>
          if path t = '''' then
            (Inr (Some (Error ''temp directory is not configured correctly'')), [])
          else
            (let tmp = filepath_Clean (TempDir env);
                 current = filepath_Join [path t, subdir]
             in if \<not> strings_HasPrefix current tmp then
                  (Inr (Some (Error ''temp directory is considered unsafe'')), [])
                else if current = tmp then
                  (Inr (Some (Error ''expected a subdirectory within the temp directory'')), [])
                else (case RemoveAll env current of
                        Some e \<Rightarrow> (Inr (Some e), [CallRemoveAll current])
                      | None \<Rightarrow> (Inr None, [CallRemoveAll current]))))"

definition RecreateTemp :: "Env \<Rightarrow> AppDirs \<Rightarrow> string \<Rightarrow> (panic + error option) \<times> fscall list" where
  "RecreateTemp env a subdir =
     (case RemoveTemp env a subdir of
        (Inl pn, tr) \<Rightarrow> (Inl pn, tr)
      | (Inr (Some e), tr) \<Rightarrow> (Inr (Some e), tr)
      | (Inr None, tr) \<Rightarrow>
          (case temp a of
             None \<Rightarrow> (Inl NilDereference, tr)
           | Some t \<Rightarrow>
               (case Mkdir env (filepath_Join [path t, subdir]) of
                  Some e \<Rightarrow>
                    (Inr (Some (Error (''cannot create temp directory: '' @
                                         filepath_Join [path t, subdir]))),
                     tr @ [CallMkdir (filepath_Join [path t, subdir])])
                | None \<Rightarrow> (Inr None, tr @ [CallMkdir (filepath_Join [path t, subdir])]))))"

section \<open>Notions of the specification\<close>


text \<open>
  \<open>Parameterize\<close> in the words of the specification: the pairs of the reverse map, sorted
  by falling length of the path, are replaced in that order over the whole input; a
  trailing separator is stripped; a result that is still relative is made relative to
  the base path, or cleaned when that fails.
\<close>

definition reversePairs :: "string list \<Rightarrow> AppDirs \<Rightarrow> (string \<times> string) list" where
  "reversePairs keys a = map (\<lambda>k. (k, lookup (keywordsReverse a) k)) keys"

definition byFallingLength :: "(string \<times> string) list \<Rightarrow> (string \<times> string) list" where
  "byFallingLength pairs = sort_key (\<lambda>item. - int (length (fst item))) pairs"

definition Parameterize_spec :: "string list \<Rightarrow> AppDirs \<Rightarrow> string \<Rightarrow> string \<Rightarrow> string" where
  "Parameterize_spec keys a basePath input =
     (let replaced = foldl (\<lambda>s item. strings_ReplaceAll s (fst item) (snd item)) input
                       (byFallingLength (reversePairs keys a));
          trimmed = strings_TrimSuffix replaced ''/''
      in if filepath_IsAbs trimmed then trimmed
         else (case filepath_Rel basePath trimmed of
                 Inr rel \<Rightarrow> rel
               | Inl e \<Rightarrow> filepath_Clean trimmed))"

text \<open>
  \<open>MakeAbsolute\<close> in the words of the specification: the input is split on the separator,
  a segment that is a key of the forward map is replaced by the path it maps to, the
  segments are joined again as \<open>filepath.Join\<close> joins a list of elements; a root separator
  is put back in front of an absolute input whose result became relative, and the result
  goes through \<open>AbsPath\<close>.
\<close>

definition substituteSegment :: "AppDirs \<Rightarrow> string \<Rightarrow> string" where
  "substituteSegment a segment = (case keywordsMap a segment of Some p \<Rightarrow> p | None \<Rightarrow> segment)"

definition MakeAbsolute_spec :: "Env \<Rightarrow> AppDirs \<Rightarrow> string \<Rightarrow> string \<Rightarrow> string" where
  "MakeAbsolute_spec env a basePath input =
     (let joined = filepath_Join (map (substituteSegment a) (strings_Split input CHR ''/''));
          rooted = (if filepath_IsAbs input \<and> GOOS env \<noteq> ''windows'' \<and> \<not> filepath_IsAbs joined
                    then CHR ''/'' # joined else joined)
      in AbsPath env basePath rooted)"

section \<open>Auxiliary notions for the proofs about Clean\<close>

text \<open>
  The stacks \<open>Clean\<close> builds: every element is a name or \<open>..\<close> without a separator, a
  rooted path has no \<open>..\<close> on its stack, and below a \<open>..\<close> there are only \<open>..\<close>.
\<close>

definition elementOK :: "string \<Rightarrow> bool" where
  "elementOK c = (c \<noteq> '''' \<and> c \<noteq> ''.'' \<and> CHR ''/'' \<notin> set c)"

fun dotsBelow :: "string list \<Rightarrow> bool" where
  "dotsBelow [] = True"
| "dotsBelow (t # ts) = ((t = ''..'' \<longrightarrow> (\<forall>c \<in> set ts. c = ''..'')) \<and> dotsBelow ts)"

definition cleanStack :: "bool \<Rightarrow> string list \<Rightarrow> bool" where
  "cleanStack rooted st =
     ((\<forall>c \<in> set st. elementOK c) \<and> (rooted \<longrightarrow> ''..'' \<notin> set st) \<and> dotsBelow st)"

definition stackOf :: "string \<Rightarrow> string list" where
  "stackOf p = foldl (cleanStep (filepath_IsAbs p)) [] (strings_Split p CHR ''/'')"

section \<open>A sample environment\<close>

text \<open>
  A Linux process started as \<open>/usr/local/bin/Test\<close> in \<open>/home/u/ws\<close>, with an empty file
  system in which every \<open>Mkdir\<close> and \<open>RemoveAll\<close> succeeds. The concrete evaluations
  below run in it.
\<close>

definition sampleEnv :: Env where
  "sampleEnv = \<lparr>GOOS = ''linux'', Args0 = ''/usr/local/bin/Test'', Getwd = Inr ''/home/u/ws'',
     UserCacheDir = Inr ''/home/u/.cache'', UserHomeDir = Inr ''/home/u'', TempDir = ''/tmp'',
     Stat = (\<lambda>p. Inl (Error ''no such file or directory'')),
     Mkdir = (\<lambda>p. None), RemoveAll = (\<lambda>p. None)\<rparr>"

text \<open>
  Four descriptors, the registry that \<open>Assign\<close> builds from them, and one order in which a
  range statement may visit its reverse map.
\<close>

definition sampleHome :: Dir where
  "sampleHome = \<lparr>dirType = Home, path = ''/home/u'', aliases = [''$HOME'', ''${HOME}'', ''~'']\<rparr>"

definition sampleCache :: Dir where
  "sampleCache = \<lparr>dirType = Cache, path = ''/home/u/.cache/Test'', aliases = [''$CACHE'', ''${CACHE}'']\<rparr>"

definition sampleTemp :: Dir where
  "sampleTemp = \<lparr>dirType = Temp, path = ''/tmp/Test'', aliases = [''$TEMP'', ''${TEMP}'']\<rparr>"

definition sampleWorkspace :: Dir where
  "sampleWorkspace = \<lparr>dirType = Workspace, path = ''/home/u/ws'',
     aliases = [''$workspaceRoot'', ''${workspaceRoot}'', ''$PWD'', ''${PWD}'']\<rparr>"

definition sampleRegistry :: AppDirs where
  "sampleRegistry = foldl (Assign sampleEnv) AppDirs_zero [sampleCache, sampleHome, sampleTemp, sampleWorkspace]"

definition sampleKeys :: "string list" where
  "sampleKeys = [''/home/u'', ''/tmp/Test'', ''/home/u/ws'', ''/home/u/.cache/Test'']"

text \<open>
  The package state of that process, with a runtime that doubles the capacity of a slice
  that has to grow (so \<open>defaultHome\<close> has three elements in an array of four after
  \<open>init()\<close>), and the \<open>Home\<close> descriptor that \<open>NewDir\<close> returns in it.
\<close>

definition sampleGrow :: "nat \<Rightarrow> nat \<Rightarrow> nat" where
  "sampleGrow old needed = 2 * old"

definition samplePackage :: Package where
  "samplePackage = initPackage sampleGrow sampleEnv"

definition sampleHomeSlice :: DirSlice where
  "sampleHomeSlice = \<lparr>ds_dirType = Home, ds_path = ''/home/u'',
     ds_aliases = \<lparr>sliceArray = 5, sliceOff = 0, sliceLen = 3, sliceCap = 4\<rparr>\<rparr>"


section \<open>Theorems\<close>

text \<open>
  C8. \<open>DirType.String\<close> (dir.go) is total: it returns the fixed lower-case name of each
  of the five kinds and the empty string for every other value of the type.
\<close>

theorem String_names:
  "String Cache = ''cache'' \<and> String Config = ''config'' \<and> String Home = ''home'' \<and>
   String Workspace = ''workspace'' \<and> String Temp = ''temp'' \<and>
   (\<forall>d. d \<notin> {Cache, Config, Home, Workspace, Temp} \<longrightarrow> String d = '''')"
proof -
  have "String d = ''''" if "d \<notin> {Cache, Config, Home, Workspace, Temp}" for d
  proof -
    from that have "d < Cache \<or> d > Temp"
      unfolding DirType_defs by auto
    then show ?thesis by (simp add: String_def)
  qed
  then show ?thesis
    by (simp add: String_def DirType_defs)
qed

theorem String_names_witness:
  "(0::int) \<notin> {Cache, Config, Home, Workspace, Temp} \<and> String 0 = '''' \<and> String 6 = ''''"
  using String_names by (simp add: DirType_defs)

text \<open>The superseded copy in workspace.go is off by one and fails for \<open>Temp\<close>.\<close>

lemma String_workspace_go_off_by_one:
  "String_workspace_go Cache = Inr ''config'' \<and> String_workspace_go Temp = Inl IndexOutOfRange"
  by (simp add: String_workspace_go_def DirType_defs)

text \<open>
  C1 (the code at the failing inputs). With a cache descriptor assigned and no config
  descriptor, \<open>Config()\<close> does not return the empty string: it dereferences the nil
  config pointer. With a config descriptor assigned and no cache descriptor, it returns
  the empty string instead of the stored path. The other four accessors test their
  own slot. The first registry is what \<open>Assign\<close> of a cache descriptor makes of an empty
  one.
\<close>

theorem Config_reads_cache_slot:
  "AppDirs_Config (AppDirs_zero\<lparr>cache := Some c\<rparr>) = Inl NilDereference \<and>
   AppDirs_Config (AppDirs_zero\<lparr>config := Some d\<rparr>) = Inr '''' \<and>
   AppDirs_Cache (AppDirs_zero\<lparr>cache := Some c\<rparr>) = path c \<and>
   AppDirs_Config (Assign sampleEnv AppDirs_zero sampleCache) = Inl NilDereference \<and>
   AppDirs_Cache (Assign sampleEnv AppDirs_zero sampleCache) = ''/home/u/.cache/Test''"
proof -
  have "AppDirs_Config (Assign sampleEnv AppDirs_zero sampleCache) = Inl NilDereference"
    by code_simp
  moreover have "AppDirs_Cache (Assign sampleEnv AppDirs_zero sampleCache) = ''/home/u/.cache/Test''"
    by code_simp
  ultimately show ?thesis
    by (simp add: AppDirs_Config_def AppDirs_Cache_def AppDirs_zero_def)
qed

subsection \<open>The temp directory\<close>

text \<open>
  C10. \<open>RemoveTemp\<close> reads the path of the temp descriptor before anything else, so it
  panics exactly when the temp slot is unset, and \<open>RecreateTemp\<close>, which calls it first,
  panics with it; neither has touched the file system by then. \<open>CreateTemp\<close> on the same
  registry returns the invalid-state error and makes no file-system call.
\<close>

theorem temp_slot_unset:
  "(fst (RemoveTemp env a subdir) = Inl NilDereference \<longleftrightarrow> temp a = None) \<and>
   (temp a = None \<longrightarrow>
      RemoveTemp env a subdir = (Inl NilDereference, []) \<and>
      RecreateTemp env a subdir = (Inl NilDereference, []) \<and>
      CreateTemp env a =
        (Inr (Some (Error ''cannot create temp directory, invalid state'')), []))"
  by (auto simp: RemoveTemp_def RecreateTemp_def CreateTemp_def AppDirs_Temp_def Let_def
           split: option.splits)

theorem temp_slot_unset_witness:
  "temp AppDirs_zero = None \<and>
   RemoveTemp sampleEnv AppDirs_zero ''logs'' = (Inl NilDereference, []) \<and>
   RecreateTemp sampleEnv AppDirs_zero ''logs'' = (Inl NilDereference, []) \<and>
   CreateTemp sampleEnv AppDirs_zero =
     (Inr (Some (Error ''cannot create temp directory, invalid state'')), [])"
  using temp_slot_unset [of sampleEnv AppDirs_zero "''logs''"]
  by (simp add: AppDirs_zero_def)

text \<open>
  C2 (the code at the failing input). The platform temp root is \<open>/tmp\<close> and the temp
  descriptor is \<open>/tmpfoo\<close>, a sibling of the temp root and not a directory inside it. The
  guard compares strings, \<open>/tmp\<close> is a prefix of \<open>/tmpfoo\<close>, and \<open>RemoveTemp\<close> goes on to
  \<open>os.RemoveAll\<close> on \<open>/tmpfoo\<close>. A descriptor outside the temp root whose path does not
  start with the same bytes is refused.
\<close>

theorem RemoveTemp_sibling_of_temp_root:
  "filepath_Clean (TempDir sampleEnv) = ''/tmp'' \<and>
   NewDir sampleEnv Temp ''Test'' [WithPath ''/tmpfoo''] =
     Some (Inr \<lparr>dirType = Temp, path = ''/tmpfoo'', aliases = defaultTemp\<rparr>, []) \<and>
   RemoveTemp sampleEnv
     (Assign sampleEnv AppDirs_zero \<lparr>dirType = Temp, path = ''/tmpfoo'', aliases = defaultTemp\<rparr>)
     '''' = (Inr None, [CallRemoveAll ''/tmpfoo'']) \<and>
   RemoveTemp sampleEnv
     (Assign sampleEnv AppDirs_zero \<lparr>dirType = Temp, path = ''/unsupported'', aliases = defaultTemp\<rparr>)
     '''' = (Inr (Some (Error ''temp directory is considered unsafe'')), [])"
  by code_simp

subsection \<open>Root\<close>

text \<open>
  C9. When the working directory can be read and the base name of \<open>os.Args[0]\<close> equals
  the application name, \<open>Root\<close> returns the working directory as it is and makes no
  \<open>os.Stat\<close> call; a run of \<open>Root\<close> that made a file-system call is one in which the two
  names differ.
\<close>

theorem Root_of_running_binary:
  assumes "Getwd env = Inr dir"
  shows "(snd (filepath_Split (Args0 env)) = appName \<longrightarrow> Root env appName = Some (Inr dir, [])) \<and>
         (\<forall>r tr. Root env appName = Some (r, tr) \<and> tr \<noteq> [] \<longrightarrow>
                   snd (filepath_Split (Args0 env)) \<noteq> appName)"
  using assms by (auto simp: Root_def Let_def)

theorem Root_of_running_binary_witness:
  "Getwd sampleEnv = Inr ''/home/u/ws'' \<and> snd (filepath_Split (Args0 sampleEnv)) = ''Test'' \<and>
   Root sampleEnv ''Test'' = Some (Inr ''/home/u/ws'', [])"
  using Root_of_running_binary [of sampleEnv "''/home/u/ws''" "''Test''"]
  by (simp add: sampleEnv_def filepath_Split_def)

text \<open>With another name the search starts, here up to the root of the empty file system.\<close>

lemma Root_of_other_name:
  "Root sampleEnv ''go-workspace'' =
     Some (Inl (Error ''cannot identify workspace root (no .git repository found)''),
           [CallStat ''/home/u/ws/.git'', CallStat ''/home/u/.git'', CallStat ''/home/.git'',
            CallStat ''/.git''])"
  by code_simp

subsection \<open>NewDir\<close>

text \<open>
  In the package as \<open>init()\<close> leaves it, the slices of the five variables hold the tables
  of dir.go, and a \<open>NewDir\<close> without options returns a descriptor whose aliases are those
  of its kind: there the descriptors of the two models agree.
\<close>

lemma initPackage_tables:
  "elems (initPackage grow env) (var_defaultCache (initPackage grow env)) = defaultCache"
  "elems (initPackage grow env) (var_defaultConfig (initPackage grow env)) = defaultConfig"
  "elems (initPackage grow env) (var_defaultHome (initPackage grow env)) = defaultHome env"
  "elems (initPackage grow env) (var_defaultTemp (initPackage grow env)) = defaultTemp"
  "elems (initPackage grow env) (var_defaultWorkspace (initPackage grow env)) = defaultWorkspace"
  by (simp_all add: initPackage_def Let_def elems_def arrayOf_def literal_def go_append_def
        newArray_def defaultCache_def defaultConfig_def defaultHome_def defaultTemp_def
        defaultWorkspace_def nth_append)

lemma NewDir_slice_initial:
  assumes "NewDir_slice env (initPackage grow env) dt appName [] = Some (Inr ds, tr)"
  shows "Aliases_slice (initPackage grow env) ds = defaultAliases env dt \<and>
         NewDir env dt appName [] =
           Some (Inr \<lparr>dirType = ds_dirType ds, path = ds_path ds,
                       aliases = defaultAliases env dt\<rparr>, tr)"
proof -
  obtain d where run: "NewDir env dt appName [] = Some (Inr d, tr)"
    and ds: "ds = \<lparr>ds_dirType = dirType d, ds_path = path d,
                    ds_aliases = (if dt = Cache then var_defaultCache (initPackage grow env)
                       else if dt = Config then var_defaultConfig (initPackage grow env)
                       else if dt = Workspace then var_defaultWorkspace (initPackage grow env)
                       else if dt = Home then var_defaultHome (initPackage grow env)
                       else if dt = Temp then var_defaultTemp (initPackage grow env)
                       else \<lparr>sliceArray = 0, sliceOff = 0, sliceLen = 0, sliceCap = 0\<rparr>)\<rparr>"
    using assms
    by (auto simp: NewDir_slice_def Let_def split: option.splits sum.splits prod.splits)
  have "aliases d = defaultAliases env dt"
    using run
    by (auto simp: NewDir_def Let_def split: if_splits option.splits prod.splits sum.splits)
  moreover have "Aliases_slice (initPackage grow env) ds = defaultAliases env dt"
    unfolding Aliases_slice_def ds
    by (simp add: initPackage_tables defaultAliases_def) (simp add: elems_def)
  ultimately show ?thesis using run ds by simp
qed

text \<open>
  C7. \<open>NewDir\<close> without aliases stores the table of its kind itself in the descriptor, so
  the descriptor carries the default set only as long as nothing has written into the
  array of that table. In the sample process the first \<open>NewDir(Home, "Test")\<close> returns a
  descriptor with \<open>$HOME\<close>, \<open>${HOME}\<close>, \<open>~\<close>. \<open>RemoveAliases("$HOME")\<close> on that descriptor leaves
  it with \<open>${HOME}\<close>, \<open>~\<close> and has moved the strings in the array it shares with
  \<open>defaultHome\<close>: a second \<open>NewDir(Home, "Test")\<close> without aliases succeeds and returns a
  descriptor whose aliases are \<open>${HOME}\<close>, \<open>~\<close>, \<open>~\<close>, not the default set of \<open>Home\<close>.
\<close>

theorem NewDir_after_RemoveAliases:
  "NewDir_slice sampleEnv samplePackage Home ''Test'' [] = Some (Inr sampleHomeSlice, []) \<and>
   Aliases_slice samplePackage sampleHomeSlice = [''$HOME'', ''${HOME}'', ''~''] \<and>
   Aliases_slice (fst (RemoveAliases_of samplePackage sampleHomeSlice [''$HOME'']))
     (snd (RemoveAliases_of samplePackage sampleHomeSlice [''$HOME''])) = [''${HOME}'', ''~''] \<and>
   NewDir_slice sampleEnv (fst (RemoveAliases_of samplePackage sampleHomeSlice [''$HOME'']))
     Home ''Test'' [] = Some (Inr sampleHomeSlice, []) \<and>
   Aliases_slice (fst (RemoveAliases_of samplePackage sampleHomeSlice [''$HOME'']))
     sampleHomeSlice = [''${HOME}'', ''~'', ''~'']"
  by code_simp

lemma NewDir_Home_sample:
  "NewDir sampleEnv Home ''Test'' [] =
     Some (Inr \<lparr>dirType = Home, path = ''/home/u'', aliases = [''$HOME'', ''${HOME}'', ''~'']\<rparr>, [])"
  by code_simp

text \<open>
  What \<open>RemoveAliases\<close> does to the table does not depend on how the runtime grows a
  slice: whatever capacity \<open>init()\<close> was given for \<open>defaultHome\<close>, the second \<open>NewDir\<close>
  returns \<open>${HOME}\<close>, \<open>~\<close>, \<open>~\<close>.
\<close>

lemma shared_table_any_growth:
  fixes grow :: "nat \<Rightarrow> nat \<Rightarrow> nat"
  defines "P \<equiv> initPackage grow sampleEnv"
  defines "d \<equiv> \<lparr>ds_dirType = Home, ds_path = ''/home/u'', ds_aliases = var_defaultHome P\<rparr>"
  shows "NewDir_slice sampleEnv P Home ''Test'' [] = Some (Inr d, []) \<and>
         Aliases_slice P d = [''$HOME'', ''${HOME}'', ''~''] \<and>
         NewDir_slice sampleEnv (fst (RemoveAliases_of P d [''$HOME''])) Home ''Test'' [] =
           Some (Inr d, []) \<and>
         Aliases_slice (fst (RemoveAliases_of P d [''$HOME''])) d = [''${HOME}'', ''~'', ''~'']"
proof -
  have goos: "GOOS sampleEnv \<noteq> ''windows''" by (simp add: sampleEnv_def)
  have P: "P = \<lparr>arrays = [defaultCache, defaultConfig, [''$HOME'', ''${HOME}''], defaultTemp,
                          defaultWorkspace,
                          [''$HOME'', ''${HOME}'', ''~''] @ replicate (max 3 (grow 2 3) - 3) ''''],
               var_defaultCache = literal 0 defaultCache,
               var_defaultConfig = literal 1 defaultConfig,
               var_defaultHome = \<lparr>sliceArray = 5, sliceOff = 0, sliceLen = 3, sliceCap = max 3 (grow 2 3)\<rparr>,
               var_defaultTemp = literal 3 defaultTemp,
               var_defaultWorkspace = literal 4 defaultWorkspace\<rparr>"
    unfolding P_def initPackage_def using goos
    by (simp add: Let_def go_append_def literal_def newArray_def elems_def arrayOf_def)
       (simp add: numeral_2_eq_2 numeral_3_eq_3)
  have home: "var_defaultHome P = \<lparr>sliceArray = 5, sliceOff = 0, sliceLen = 3, sliceCap = max 3 (grow 2 3)\<rparr>"
    by (simp add: P)
  have first: "NewDir_slice sampleEnv P Home ''Test'' [] = Some (Inr d, [])"
    by (simp add: NewDir_slice_def NewDir_Home_sample d_def Let_def) (simp add: DirType_defs)
  have els: "Aliases_slice P d = [''$HOME'', ''${HOME}'', ''~'']"
    by (simp add: Aliases_slice_def d_def elems_def arrayOf_def P)
  define P1 where "P1 = fst (RemoveAliases_of P d [''$HOME''])"
  have P1: "P1 = P\<lparr>arrays := [defaultCache, defaultConfig, [''$HOME'', ''${HOME}''], defaultTemp,
                          defaultWorkspace,
                          [''${HOME}'', ''~'', ''~''] @ replicate (max 3 (grow 2 3) - 3) '''',
                          [''$HOME'']]\<rparr>"
    unfolding P1_def RemoveAliases_of_def RemoveAliases_slice_def
    by (simp add: P d_def newArray_def elems_def arrayOf_def writeElems_def Let_def nth_append)
  have second: "NewDir_slice sampleEnv P1 Home ''Test'' [] = Some (Inr d, [])"
    by (simp add: NewDir_slice_def NewDir_Home_sample d_def Let_def) (simp add: DirType_defs P1)
  have els1: "Aliases_slice P1 d = [''${HOME}'', ''~'', ''~'']"
    by (simp add: Aliases_slice_def d_def elems_def arrayOf_def P1 P)
  from first els second els1 show ?thesis unfolding P1_def by simp
qed

text \<open>
  \<open>AppendAliases\<close> writes into the spare capacity that \<open>init()\<close> left in the array of
  \<open>defaultHome\<close> and sorts it: after \<open>AppendAliases("x")\<close> on the first descriptor, a second
  \<open>NewDir(Home, "Test")\<close> without aliases returns \<open>$HOME\<close>, \<open>${HOME}\<close>, \<open>x\<close>.
\<close>

lemma NewDir_after_AppendAliases:
  "Aliases_slice (fst (AppendAliases_of sampleGrow samplePackage sampleHomeSlice [''x'']))
     (snd (AppendAliases_of sampleGrow samplePackage sampleHomeSlice [''x''])) =
     [''$HOME'', ''${HOME}'', ''x'', ''~''] \<and>
   NewDir_slice sampleEnv (fst (AppendAliases_of sampleGrow samplePackage sampleHomeSlice [''x'']))
     Home ''Test'' [] = Some (Inr sampleHomeSlice, []) \<and>
   Aliases_slice (fst (AppendAliases_of sampleGrow samplePackage sampleHomeSlice [''x'']))
     sampleHomeSlice = [''$HOME'', ''${HOME}'', ''x'']"
  by code_simp


subsection \<open>Assign\<close>



















text \<open>A second descriptor of a kind drops the aliases of the first from both maps.\<close>

lemma Assign_twice_rebuilds:
  "keywordsMap (Assign sampleEnv (Assign sampleEnv AppDirs_zero sampleHome)
       \<lparr>dirType = Home, path = ''/root'', aliases = [''$H'']\<rparr>) ''$HOME'' = None \<and>
   keywordsReverse (Assign sampleEnv (Assign sampleEnv AppDirs_zero sampleHome)
       \<lparr>dirType = Home, path = ''/root'', aliases = [''$H'']\<rparr>) ''/home/u'' = None \<and>
   keywordsReverse (Assign sampleEnv (Assign sampleEnv AppDirs_zero sampleHome)
       \<lparr>dirType = Home, path = ''/root'', aliases = [''$H'']\<rparr>) ''/root'' = Some ''$H''"
  by code_simp


subsection \<open>Parameterize\<close>

lemma ReplaceAll_same: "strings_ReplaceAll s k k = s"
  by (simp add: strings_ReplaceAll_def strings_Replace_def)

lemma foldl_ReplaceAll_filter:
  "foldl (\<lambda>s item. strings_ReplaceAll s (fst item) (snd item)) s xs =
   foldl (\<lambda>s item. strings_ReplaceAll s (fst item) (snd item)) s
     (filter (\<lambda>item. fst item \<noteq> snd item) xs)"
  by (induction xs arbitrary: s) (auto simp: ReplaceAll_same)

lemma foldl_ReplaceAll_padding:
  "foldl (\<lambda>s item. strings_ReplaceAll s (fst item) (snd item)) s
     (sort_key f (replicate n ('''', '''') @ xs)) =
   foldl (\<lambda>s item. strings_ReplaceAll s (fst item) (snd item)) s (sort_key f xs)"
proof -
  let ?g = "\<lambda>s (item :: string \<times> string). strings_ReplaceAll s (fst item) (snd item)"
  let ?P = "\<lambda>item :: string \<times> string. fst item \<noteq> snd item"
  have "foldl ?g s (sort_key f (replicate n ('''', '''') @ xs)) =
        foldl ?g s (sort_key f (filter ?P (replicate n ('''', '''') @ xs)))"
    by (subst foldl_ReplaceAll_filter) (simp only: filter_sort)
  also have "filter ?P (replicate n ('''', '''') @ xs) = filter ?P xs"
    by simp
  also have "foldl ?g s (sort_key f (filter ?P xs)) = foldl ?g s (sort_key f xs)"
    by (subst (2) foldl_ReplaceAll_filter) (simp only: filter_sort)
  finally show ?thesis .
qed

lemma orderedItems_falling:
  "sorted_wrt (\<lambda>x y. length (fst y) \<le> length (fst x)) (orderedItems keys a)"
proof -
  have "sorted (map (\<lambda>item. - int (length (fst item))) (orderedItems keys a))"
    unfolding orderedItems_def by (rule sorted_sort_key)
  then show ?thesis
    by (simp add: sorted_map)
qed

text \<open>
  C5. \<open>Parameterize\<close> of workspace.go computes what the specification describes, for
  every order in which the range statement visits the reverse map: the zero items the
  slice starts with replace nothing. In the list of replacements an item with a longer
  path stands before every item with a shorter one, so a registered path is replaced
  before any registered path that is a proper part of it, and every pair of the reverse
  map is among the replacements.
\<close>

theorem Parameterize_longest_first:
  "Parameterize keys a basePath input = Parameterize_spec keys a basePath input \<and>
   (\<forall>i j. i < length (orderedItems keys a) \<and> j < length (orderedItems keys a) \<and>
          length (fst (orderedItems keys a ! j)) < length (fst (orderedItems keys a ! i))
          \<longrightarrow> i < j) \<and>
   (\<forall>k \<in> set keys. (k, lookup (keywordsReverse a) k) \<in> set (orderedItems keys a))"
proof -
  have eq: "Parameterize keys a basePath input = Parameterize_spec keys a basePath input"
    by (simp add: Parameterize_def Parameterize_spec_def orderedItems_def byFallingLength_def
        reversePairs_def foldl_ReplaceAll_padding Let_def split: sum.splits)
  have first: "i < j"
    if "i < length (orderedItems keys a)" "j < length (orderedItems keys a)"
      "length (fst (orderedItems keys a ! j)) < length (fst (orderedItems keys a ! i))" for i j
  proof (rule ccontr)
    assume "\<not> i < j"
    with that(3) have "j < i" by (cases "i = j") auto
    with orderedItems_falling [of keys a] that(1)
    have "length (fst (orderedItems keys a ! i)) \<le> length (fst (orderedItems keys a ! j))"
      by (simp add: sorted_wrt_iff_nth_less)
    with that(3) show False by simp
  qed
  have all: "\<forall>k \<in> set keys. (k, lookup (keywordsReverse a) k) \<in> set (orderedItems keys a)"
    by (simp add: orderedItems_def)
  from eq first all show ?thesis by blast
qed

theorem Parameterize_longest_first_witness:
  "Parameterize sampleKeys sampleRegistry ''/home/u/ws'' ''/home/u/ws/test'' = ''$workspaceRoot/test'' \<and>
   Parameterize_spec sampleKeys sampleRegistry ''/home/u/ws'' ''/home/u/ws/test'' =
     ''$workspaceRoot/test'' \<and>
   map fst (orderedItems sampleKeys sampleRegistry) =
     [''/home/u/.cache/Test'', ''/home/u/ws'', ''/tmp/Test'', ''/home/u'', '''', '''', '''', '''']"
proof -
  have run: "Parameterize sampleKeys sampleRegistry ''/home/u/ws'' ''/home/u/ws/test'' =
      ''$workspaceRoot/test''"
    by code_simp
  have items: "map fst (orderedItems sampleKeys sampleRegistry) =
      [''/home/u/.cache/Test'', ''/home/u/ws'', ''/tmp/Test'', ''/home/u'', '''', '''', '''', '''']"
    by code_simp
  from Parameterize_longest_first
         [of sampleKeys sampleRegistry "''/home/u/ws''" "''/home/u/ws/test''"] run items
  show ?thesis by simp
qed


subsection \<open>Clean, Join and MakeAbsolute\<close>

lemma Split_nonempty [simp]: "strings_Split s c \<noteq> []"
  by (induction s) (auto split: list.splits)

lemma Split_Cons:
  "strings_Split (x # xs) c =
     (if x = c then [] # strings_Split xs c
      else (x # hd (strings_Split xs c)) # tl (strings_Split xs c))"
  using Split_nonempty [of xs c] by (auto split: list.splits)

lemma Split_append: "strings_Split (a @ c # b) c = strings_Split a c @ strings_Split b c"
  by (induction a) (auto simp: Split_Cons simp del: strings_Split.simps(2))

lemma Split_no_sep: "c \<notin> set s \<Longrightarrow> strings_Split s c = [s]"
  by (induction s) (auto simp: Split_Cons simp del: strings_Split.simps(2))

lemma Split_elements: "x \<in> set (strings_Split s c) \<Longrightarrow> c \<notin> set x"
proof (induction s arbitrary: x)
  case Nil
  then show ?case by simp
next
  case (Cons y s)
  show ?case
  proof (cases "y = c")
    case True
    with Cons show ?thesis by (auto simp: Split_Cons simp del: strings_Split.simps(2))
  next
    case False
    from Cons.prems False have "x = y # hd (strings_Split s c) \<or> x \<in> set (tl (strings_Split s c))"
      by (simp add: Split_Cons del: strings_Split.simps(2))
    then show ?thesis
    proof
      assume "x = y # hd (strings_Split s c)"
      moreover have "hd (strings_Split s c) \<in> set (strings_Split s c)" by simp
      ultimately show ?thesis using Cons.IH False by auto
    next
      assume "x \<in> set (tl (strings_Split s c))"
      then have "x \<in> set (strings_Split s c)" by (meson list.set_sel(2) Split_nonempty)
      then show ?thesis by (rule Cons.IH)
    qed
  qed
qed

lemma Join_Cons: "xs \<noteq> [] \<Longrightarrow> strings_Join (x # xs) sep = x @ sep @ strings_Join xs sep"
  by (cases xs) auto

lemma Join_snoc: "xs \<noteq> [] \<Longrightarrow> strings_Join (xs @ [s]) sep = strings_Join xs sep @ sep @ s"
  by (induction xs sep rule: strings_Join.induct) auto

lemma Split_Join:
  "xs \<noteq> [] \<Longrightarrow> \<forall>x \<in> set xs. c \<notin> set x \<Longrightarrow> strings_Split (strings_Join xs [c]) c = xs"
proof (induction xs)
  case Nil
  then show ?case by simp
next
  case (Cons x xs)
  show ?case
  proof (cases "xs = []")
    case True
    with Cons.prems show ?thesis by (simp add: Split_no_sep)
  next
    case False
    with Cons have "strings_Split (strings_Join xs [c]) c = xs" by simp
    with False Cons.prems show ?thesis
      by (simp add: Join_Cons Split_append Split_no_sep)
  qed
qed

lemma IsAbs_iff: "filepath_IsAbs p \<longleftrightarrow> (p \<noteq> [] \<and> hd p = CHR ''/'')"
  by (cases p) (auto simp: filepath_IsAbs_def strings_HasPrefix_def)

lemma cleanStep_stack:
  assumes "cleanStack r st" and "CHR ''/'' \<notin> set c"
  shows "cleanStack r (cleanStep r st c)"
proof (cases st)
  case Nil
  with assms show ?thesis
    by (auto simp: cleanStack_def cleanStep_def elementOK_def)
next
  case (Cons t ts)
  with assms show ?thesis
    by (auto simp: cleanStack_def cleanStep_def elementOK_def)
qed

lemma foldl_cleanStep_stack:
  "cleanStack r st \<Longrightarrow> \<forall>c \<in> set cs. CHR ''/'' \<notin> set c \<Longrightarrow>
   cleanStack r (foldl (cleanStep r) st cs)"
  by (induction cs arbitrary: st) (auto simp: cleanStep_stack)

lemma cleanStack_Nil [simp]: "cleanStack r []"
  by (simp add: cleanStack_def)

lemma stackOf_stack: "cleanStack (filepath_IsAbs p) (stackOf p)"
proof -
  have "\<forall>c \<in> set (strings_Split p CHR ''/''). CHR ''/'' \<notin> set c"
    using Split_elements by blast
  then show ?thesis
    unfolding stackOf_def by (intro foldl_cleanStep_stack) simp_all
qed

lemma cleanStack_tl: "cleanStack r (t # ts) \<Longrightarrow> cleanStack r ts"
  by (auto simp: cleanStack_def)

lemma cleanStep_push:
  assumes "cleanStack r (t # ts)"
  shows "cleanStep r ts t = t # ts"
proof (cases "t = ''..''")
  case True
  from assms True have "\<not> r" and below: "\<forall>c \<in> set ts. c = ''..''"
    by (simp_all add: cleanStack_def)
  from below have "ts = [] \<or> hd ts = ''..''" by (cases ts) simp_all
  with True \<open>\<not> r\<close> show ?thesis by (auto simp: cleanStep_def)
next
  case False
  moreover from assms have "t \<noteq> []" "t \<noteq> ''.''"
    by (simp_all add: cleanStack_def elementOK_def)
  ultimately show ?thesis by (simp add: cleanStep_def)
qed

lemma replay_stack: "cleanStack r st \<Longrightarrow> foldl (cleanStep r) [] (rev st) = st"
proof (induction st)
  case Nil
  then show ?case by simp
next
  case (Cons t ts)
  from Cons.prems have "cleanStack r ts" by (rule cleanStack_tl)
  then have "foldl (cleanStep r) [] (rev ts) = ts" by (rule Cons.IH)
  with cleanStep_push [OF Cons.prems] show ?case by simp
qed

lemma cleanStep_skip [simp]: "cleanStep r st '''' = st" "cleanStep r st ''.'' = st"
  by (simp_all add: cleanStep_def)

lemma Split_render:
  assumes "cleanStack r st"
  shows "foldl (cleanStep r) [] (strings_Split (cleanRender r st) CHR ''/'') = st"
proof (cases "st = []")
  case True
  then show ?thesis by (simp add: cleanRender_def)
next
  case False
  have "strings_Split (strings_Join (rev st) ''/'') CHR ''/'' = rev st"
    using assms False by (intro Split_Join) (auto simp: cleanStack_def elementOK_def)
  with False replay_stack [OF assms] show ?thesis
    by (cases r) (simp_all add: cleanRender_def)
qed

lemma hd_Join:
  assumes "xs \<noteq> []" and "hd xs \<noteq> []"
  shows "strings_Join xs sep \<noteq> [] \<and> hd (strings_Join xs sep) = hd (hd xs)"
proof (cases xs)
  case Nil
  with assms show ?thesis by simp
next
  case (Cons x ys)
  with assms show ?thesis by (cases ys) auto
qed

lemma IsAbs_render:
  assumes "cleanStack r st"
  shows "filepath_IsAbs (cleanRender r st) = r"
proof (cases "r \<or> st = []")
  case True
  then show ?thesis by (auto simp: cleanRender_def IsAbs_iff)
next
  case False
  then have "rev st \<noteq> []" by simp
  moreover have ok: "elementOK (hd (rev st))"
    using assms False by (simp add: cleanStack_def hd_rev)
  ultimately have "hd (strings_Join (rev st) ''/'') = hd (hd (rev st))" "strings_Join (rev st) ''/'' \<noteq> []"
    using hd_Join [of "rev st" "''/''"] by (auto simp: elementOK_def)
  moreover from ok have "hd (hd (rev st)) \<noteq> CHR ''/''"
    by (cases "hd (rev st)") (auto simp: elementOK_def)
  ultimately show ?thesis using False
    by (simp add: cleanRender_def IsAbs_iff)
qed

lemma Clean_stackOf: "filepath_Clean p = cleanRender (filepath_IsAbs p) (stackOf p)"
  by (simp add: filepath_Clean_def stackOf_def)

lemma IsAbs_Clean [simp]: "filepath_IsAbs (filepath_Clean p) = filepath_IsAbs p"
  by (simp add: Clean_stackOf IsAbs_render stackOf_stack)

lemma stackOf_Clean [simp]: "stackOf (filepath_Clean p) = stackOf p"
proof -
  have "stackOf (filepath_Clean p) =
      foldl (cleanStep (filepath_IsAbs p)) []
        (strings_Split (cleanRender (filepath_IsAbs p) (stackOf p)) CHR ''/'')"
    by (simp add: stackOf_def [of "filepath_Clean p"]) (simp add: Clean_stackOf)
  then show ?thesis by (simp add: Split_render stackOf_stack)
qed

lemma Clean_idem [simp]: "filepath_Clean (filepath_Clean p) = filepath_Clean p"
  by (simp add: Clean_stackOf [of "filepath_Clean p"]) (simp add: Clean_stackOf)

lemma Clean_nonempty [simp]: "filepath_Clean p \<noteq> []"
proof -
  have "cleanRender r st \<noteq> []" if "cleanStack r st" for r st
  proof (cases "r \<or> st = []")
    case True
    then show ?thesis by (auto simp: cleanRender_def)
  next
    case False
    then have "rev st \<noteq> []" "hd (rev st) \<noteq> []"
      using that by (auto simp: cleanStack_def elementOK_def hd_rev)
    with hd_Join [of "rev st" "''/''"] False show ?thesis by (simp add: cleanRender_def)
  qed
  then show ?thesis by (simp add: Clean_stackOf stackOf_stack)
qed

lemma IsAbs_append: "a \<noteq> [] \<Longrightarrow> filepath_IsAbs (a @ b) = filepath_IsAbs a"
  by (cases a) (auto simp: IsAbs_iff)

lemma stackOf_append:
  "a \<noteq> [] \<Longrightarrow> stackOf (a @ CHR ''/'' # b) =
     foldl (cleanStep (filepath_IsAbs a)) (stackOf a) (strings_Split b CHR ''/'')"
  by (simp add: stackOf_def IsAbs_append Split_append)

lemma Clean_append: 
  assumes "a \<noteq> []"
  shows "filepath_Clean (filepath_Clean a @ ''/'' @ b) = filepath_Clean (a @ ''/'' @ b)"
proof -
  have "stackOf (filepath_Clean a @ ''/'' @ b) = stackOf (a @ ''/'' @ b)"
    using assms by (simp add: stackOf_append)
  moreover have "filepath_IsAbs (filepath_Clean a @ ''/'' @ b) = filepath_IsAbs (a @ ''/'' @ b)"
    using assms by (simp add: IsAbs_append)
  ultimately show ?thesis by (simp add: Clean_stackOf)
qed

lemma Join_two:
  "filepath_Join [a, b] =
     (if a \<noteq> [] then filepath_Clean (a @ CHR ''/'' # b)
      else if b \<noteq> [] then filepath_Clean b else [])"
  by (simp add: filepath_Join_def)

lemma Join_step: "filepath_Join [filepath_Join ss, s] = filepath_Join (ss @ [s])"
proof (cases "dropWhile (\<lambda>e. e = []) ss")
  case Nil
  then have "\<forall>x \<in> set ss. x = []" by (simp add: dropWhile_eq_Nil_conv)
  then have "dropWhile (\<lambda>e. e = []) (ss @ [s]) = dropWhile (\<lambda>e. e = []) [s]"
    by (intro dropWhile_append2) simp
  moreover have "filepath_Join ss = []"
    unfolding filepath_Join_def Nil by simp
  ultimately show ?thesis by (simp add: filepath_Join_def)
next
  case (Cons e es)
  then have e: "e \<noteq> []" using hd_dropWhile [of "\<lambda>e. e = []" ss] by auto
  from Cons have "dropWhile (\<lambda>e. e = []) ss \<noteq> []" by simp
  then have "\<exists>x \<in> set ss. x \<noteq> []" by (simp add: dropWhile_eq_Nil_conv)
  then obtain x where "x \<in> set ss" "x \<noteq> []" by blast
  then have app: "dropWhile (\<lambda>e. e = []) (ss @ [s]) = (e # es) @ [s]"
    using dropWhile_append1 [of x ss "\<lambda>e. e = []" "[s]"] Cons by simp
  let ?X = "strings_Join (e # es) ''/''"
  have X: "?X \<noteq> []" using e hd_Join [of "e # es" "''/''"] by simp
  have "filepath_Join [filepath_Join ss, s] = filepath_Clean (filepath_Clean ?X @ CHR ''/'' # s)"
    using Cons by (simp add: Join_two) (simp add: filepath_Join_def)
  also have "\<dots> = filepath_Clean (?X @ CHR ''/'' # s)"
    using Clean_append [OF X, of s] by simp
  also have "\<dots> = filepath_Join (ss @ [s])"
    using app Join_snoc [of "e # es" s "''/''"] by (simp add: filepath_Join_def)
  finally show ?thesis .
qed

lemma Join_fold: "foldl (\<lambda>r s. filepath_Join [r, s]) [] ss = filepath_Join ss"
proof (induction ss rule: rev_induct)
  case Nil
  show ?case by (simp add: filepath_Join_def)
next
  case (snoc s ss)
  then show ?case by (simp add: Join_step)
qed

lemma MakeAbsolute_loop:
  assumes "\<forall>seg \<in> set segs. keywordsMap a seg \<noteq> Some ''''"
  shows "foldl (\<lambda>result segment.
                  let s = lookup (keywordsMap a) segment
                  in if s \<noteq> '''' then filepath_Join [result, s]
                     else filepath_Join [result, segment]) r segs =
         foldl (\<lambda>r s. filepath_Join [r, s]) r (map (substituteSegment a) segs)"
  using assms
  by (induction segs arbitrary: r)
     (auto simp: lookup_def substituteSegment_def Let_def split: option.splits)

lemma MakeAbsolute_refines:
  assumes "\<forall>seg \<in> set (strings_Split input CHR ''/''). keywordsMap a seg \<noteq> Some ''''"
  shows "MakeAbsolute env a basePath input = MakeAbsolute_spec env a basePath input"
  using MakeAbsolute_loop [OF assms, of "[]"]
  by (simp add: MakeAbsolute_def MakeAbsolute_spec_def Join_fold Let_def)






subsection \<open>The round trip through Parameterize and MakeAbsolute\<close>

lemma replaceOccurrences_absent:
  "\<not> sublist old s \<Longrightarrow> replaceOccurrences old new s n = s"
proof (induction old new s n rule: replaceOccurrences.induct)
  case (1 old new s n)
  show ?case
  proof (cases "n = 0 \<or> s = [] \<or> old = []")
    case True
    then show ?thesis by (subst replaceOccurrences.simps) simp
  next
    case False
    from "1.prems" have np: "\<not> prefix old s" by auto
    from False obtain x s' where s: "s = x # s'" by (cases s) auto
    with "1.prems" have "\<not> sublist old (tl s)" by (simp add: sublist_Cons_right)
    with "1.IH"(2) [OF False np] have "replaceOccurrences old new (tl s) n = tl s" by simp
    with False np s show ?thesis by (subst replaceOccurrences.simps) simp
  qed
qed

lemma ReplaceAll_absent: "\<not> sublist old s \<Longrightarrow> strings_ReplaceAll s old new = s"
  by (auto simp: strings_ReplaceAll_def strings_Replace_def replaceOccurrences_absent)

lemma ReplaceAll_leading:
  assumes "old \<noteq> []" and "\<not> sublist old t"
  shows "strings_ReplaceAll (old @ t) old new = new @ t"
proof (cases "old = new")
  case True
  then show ?thesis by (simp add: strings_ReplaceAll_def strings_Replace_def)
next
  case False
  have "replaceOccurrences old new (old @ t) (- 1) =
        new @ replaceOccurrences old new (drop (length old) (old @ t)) (- 1 - 1)"
    using assms(1) by (subst replaceOccurrences.simps) simp
  with assms False show ?thesis
    by (simp add: strings_ReplaceAll_def strings_Replace_def replaceOccurrences_absent)
qed

lemma sublist_behind_alias:
  assumes "sublist K (A @ t)" and "K \<noteq> []" and "hd K \<notin> set A"
  shows "sublist K t"
  using assms
proof (induction A)
  case Nil
  then show ?case by simp
next
  case (Cons x A)
  from Cons.prems(1) have "prefix K (x # A @ t) \<or> sublist K (A @ t)"
    by (simp add: sublist_Cons_right)
  then show ?case
  proof
    assume "prefix K (x # A @ t)"
    with Cons.prems(2) have "hd K = x" by (cases K) auto
    with Cons.prems(3) show ?thesis by simp
  next
    assume "sublist K (A @ t)"
    with Cons show ?thesis by simp
  qed
qed

lemma foldl_inert:
  "\<forall>item \<in> set items. g s item = s \<Longrightarrow> foldl g s items = s"
  by (induction items) auto

lemma foldl_one_effective:
  assumes "it \<in> set items"
    and "\<forall>item \<in> set items. item \<noteq> it \<longrightarrow> g s item = s"
    and "g s it = s'"
    and "\<forall>item \<in> set items. g s' item = s'"
  shows "foldl g s items = s'"
  using assms
proof (induction items)
  case Nil
  then show ?case by simp
next
  case (Cons x items)
  show ?case
  proof (cases "x = it")
    case True
    with Cons.prems show ?thesis by (simp add: foldl_inert)
  next
    case False
    with Cons.prems have "g s x = s" "it \<in> set items" by auto
    with Cons show ?thesis by simp
  qed
qed

lemma Parameterize_replaces_leading:
  assumes rev: "keywordsReverse a P = Some A"
    and P_key: "P \<in> set keys"
    and P_abs: "filepath_IsAbs P"
    and keys_abs: "\<forall>K \<in> set keys. filepath_IsAbs K"
    and plain: "CHR ''/'' \<notin> set A"
    and others: "\<forall>K \<in> set keys. K \<noteq> P \<longrightarrow> \<not> sublist K (P @ CHR ''/'' # rest)"
    and single: "\<not> sublist P (CHR ''/'' # rest)"
  shows "foldl (\<lambda>inp item. strings_ReplaceAll inp (fst item) (snd item)) (P @ CHR ''/'' # rest)
           (orderedItems keys a) = A @ CHR ''/'' # rest"
proof (rule foldl_one_effective [where it = "(P, A)"])
  let ?t = "CHR ''/'' # rest"
  have items: "set (orderedItems keys a) \<subseteq>
      insert ('''', '''') ((\<lambda>k. (k, lookup (keywordsReverse a) k)) ` set keys)"
    by (auto simp: orderedItems_def)
  have "lookup (keywordsReverse a) P = A"
    using rev by (simp add: lookup_def)
  with P_key have "(P, A) \<in> (\<lambda>k. (k, lookup (keywordsReverse a) k)) ` set keys"
    by (intro image_eqI [of _ _ P]) simp_all
  then show "(P, A) \<in> set (orderedItems keys a)"
    by (simp add: orderedItems_def)
  have P_ne: "P \<noteq> []" and P_hd: "hd P = CHR ''/''"
    using P_abs by (simp_all add: IsAbs_iff)
  show "strings_ReplaceAll (P @ ?t) (fst (P, A)) (snd (P, A)) = A @ ?t"
    using ReplaceAll_leading [OF P_ne single] by simp
  have behind: "\<not> sublist K (A @ ?t)" if "K \<in> set keys" for K
  proof
    assume sub: "sublist K (A @ ?t)"
    from that keys_abs have "K \<noteq> []" "hd K = CHR ''/''" by (simp_all add: IsAbs_iff)
    with sub plain have in_t: "sublist K ?t"
      using sublist_behind_alias [of K A ?t] by simp
    show False
    proof (cases "K = P")
      case True
      with in_t single show False by simp
    next
      case False
      from in_t obtain ps ss where "?t = ps @ K @ ss" unfolding sublist_def by blast
      then have "P @ ?t = (P @ ps) @ K @ ss" by simp
      then have "sublist K (P @ ?t)" unfolding sublist_def by blast
      with others that False show False by simp
    qed
  qed
  show "\<forall>item \<in> set (orderedItems keys a). item \<noteq> (P, A) \<longrightarrow>
          strings_ReplaceAll (P @ ?t) (fst item) (snd item) = P @ ?t"
  proof (intro ballI impI)
    fix item assume item: "item \<in> set (orderedItems keys a)" and ne: "item \<noteq> (P, A)"
    from item items consider "item = ('''', '''')"
      | K where "K \<in> set keys" "item = (K, lookup (keywordsReverse a) K)" by auto
    then show "strings_ReplaceAll (P @ ?t) (fst item) (snd item) = P @ ?t"
    proof cases
      case 1
      then show ?thesis by (simp add: strings_ReplaceAll_def strings_Replace_def)
    next
      case 2
      with ne rev have "K \<noteq> P" by (auto simp: lookup_def)
      with others 2 show ?thesis by (simp add: ReplaceAll_absent)
    qed
  qed
  show "\<forall>item \<in> set (orderedItems keys a).
          strings_ReplaceAll (A @ ?t) (fst item) (snd item) = A @ ?t"
  proof
    fix item assume item: "item \<in> set (orderedItems keys a)"
    from item items consider "item = ('''', '''')"
      | K where "K \<in> set keys" "item = (K, lookup (keywordsReverse a) K)" by auto
    then show "strings_ReplaceAll (A @ ?t) (fst item) (snd item) = A @ ?t"
    proof cases
      case 1
      then show ?thesis by (simp add: strings_ReplaceAll_def strings_Replace_def)
    next
      case 2
      with behind show ?thesis by (simp add: ReplaceAll_absent)
    qed
  qed
qed

lemma Clean_trailing: "u \<noteq> [] \<Longrightarrow> filepath_Clean (u @ ''/'') = filepath_Clean u"
  using stackOf_append [of u "[]"] by (simp add: Clean_stackOf IsAbs_append)

lemma TrimSuffix_separator:
  assumes "2 \<le> length s"
  shows "strings_TrimSuffix s ''/'' \<noteq> [] \<and> hd (strings_TrimSuffix s ''/'') = hd s \<and>
         filepath_Clean (strings_TrimSuffix s ''/'') = filepath_Clean s"
proof (cases "suffix ''/'' s")
  case False
  with assms show ?thesis by (auto simp: strings_TrimSuffix_def)
next
  case True
  then obtain u where s: "s = u @ ''/''" by (auto simp: suffix_def)
  with assms have u: "u \<noteq> []" by auto
  have "strings_TrimSuffix s ''/'' = u" using True s by (simp add: strings_TrimSuffix_def)
  with u s Clean_trailing [OF u] show ?thesis by simp
qed

lemma Rel_of_relative:
  assumes "filepath_IsAbs basepath" and "\<not> filepath_IsAbs targpath"
  shows "\<exists>e. filepath_Rel basepath targpath = Inl e"
proof -
  have b: "filepath_IsAbs (filepath_Clean basepath)" and t: "\<not> filepath_IsAbs (filepath_Clean targpath)"
    using assms by simp_all
  have ne: "filepath_Clean targpath \<noteq> filepath_Clean basepath"
  proof
    assume "filepath_Clean targpath = filepath_Clean basepath"
    then have "filepath_IsAbs (filepath_Clean targpath) = filepath_IsAbs (filepath_Clean basepath)"
      by (simp only:)
    with assms show False by simp
  qed
  have dot: "filepath_Clean basepath \<noteq> ''.''"
  proof
    assume "filepath_Clean basepath = ''.''"
    then have "filepath_IsAbs (filepath_Clean basepath) = filepath_IsAbs ''.''"
      by (simp only:)
    with assms have "filepath_IsAbs ''.''" by simp
    then show False by (simp add: IsAbs_iff)
  qed
  from assms ne dot show ?thesis
    by (simp add: filepath_Rel_def Let_def)
qed

lemma foldl_cleanStep_names:
  "''..'' \<notin> set xs \<Longrightarrow>
   foldl (cleanStep r) st xs = rev (filter (\<lambda>c. c \<noteq> '''' \<and> c \<noteq> ''.'') xs) @ st"
proof (induction xs arbitrary: st)
  case Nil
  then show ?case by simp
next
  case (Cons x xs)
  then have "x \<noteq> ''..''" and rest: "''..'' \<notin> set xs" by auto
  then have "cleanStep r st x = (if x \<noteq> '''' \<and> x \<noteq> ''.'' then x # st else st)"
    by (simp add: cleanStep_def)
  with Cons.IH [OF rest] show ?case by simp
qed

lemma stackOf_name:
  assumes "A \<noteq> []" "CHR ''/'' \<notin> set A" "A \<noteq> ''.''" "A \<noteq> ''..''"
  shows "stackOf A = [A]"
  using assms by (simp add: stackOf_def Split_no_sep cleanStep_def)

lemma AbsPath_of_clean_absolute:
  assumes "filepath_IsAbs p"
  shows "AbsPath env basePath (filepath_Clean p) = filepath_Clean p"
proof -
  have "filepath_IsAbs (filepath_Clean p)" using assms by simp
  then have "\<not> strings_HasPrefix (filepath_Clean p) ''~''"
    by (cases "filepath_Clean p") (auto simp: IsAbs_iff strings_HasPrefix_def)
  with assms show ?thesis by (simp add: AbsPath_def)
qed

lemma Clean_under_directory:
  assumes P_abs: "filepath_IsAbs P"
    and cs: "\<forall>c \<in> set cs. c \<noteq> '''' \<and> c \<noteq> ''.'' \<and> c \<noteq> ''..'' \<and> CHR ''/'' \<notin> set c"
  shows "stackOf (strings_Join (P # cs) ''/'') = rev cs @ stackOf P \<and>
         filepath_IsAbs (strings_Join (P # cs) ''/'')"
proof (cases "cs = []")
  case True
  with P_abs show ?thesis by simp
next
  case False
  have P_ne: "P \<noteq> []" using P_abs by (simp add: IsAbs_iff)
  have names: "filter (\<lambda>c. c \<noteq> '''' \<and> c \<noteq> ''.'') cs = cs"
    using cs by (simp add: filter_id_conv)
  have nodots: "''..'' \<notin> set cs" using cs by auto
  have "strings_Split (strings_Join cs ''/'') CHR ''/'' = cs"
    using False cs by (intro Split_Join) auto
  then have "stackOf (P @ CHR ''/'' # strings_Join cs ''/'') = rev cs @ stackOf P"
    using foldl_cleanStep_names [OF nodots] names by (simp add: stackOf_append [OF P_ne])
  with False P_abs P_ne show ?thesis by (simp add: Join_Cons IsAbs_append)
qed

text \<open>
  C3, as amended. Let the base path be absolute and let the path be \<open>P/rest\<close>, where \<open>P\<close> is
  an absolute path of the reverse map whose alias \<open>A\<close> maps forward to \<open>P\<close> again, \<open>A\<close> is a
  plain name (not empty, no separator, neither \<open>.\<close> nor \<open>..\<close>), every path of the reverse map
  is absolute, no other path of the reverse map occurs in \<open>P/rest\<close>, \<open>P\<close> itself occurs in it
  only at the front, and no segment of \<open>rest\<close> is \<open>..\<close> or a key of the forward map. Then
  \<open>MakeAbsolute\<close> of the \<open>Parameterize\<close>d path is the cleaned path, in every order in which
  the reverse map is visited.
\<close>

theorem roundtrip_under_directory:
  assumes base: "filepath_IsAbs basePath"
    and P_abs: "filepath_IsAbs P"
    and rv: "keywordsReverse a P = Some A"
    and fw: "keywordsMap a A = Some P"
    and P_key: "P \<in> set keys"
    and keys_abs: "\<forall>K \<in> set keys. filepath_IsAbs K"
    and name: "A \<noteq> ''''" "CHR ''/'' \<notin> set A" "A \<noteq> ''.''" "A \<noteq> ''..''"
    and others: "\<forall>K \<in> set keys. K \<noteq> P \<longrightarrow> \<not> sublist K (P @ ''/'' @ rest)"
    and single: "\<not> sublist P (''/'' @ rest)"
    and segs: "\<forall>c \<in> set (strings_Split rest CHR ''/''). c \<noteq> ''..'' \<and> keywordsMap a c = None"
  shows "MakeAbsolute env a basePath (Parameterize keys a basePath (P @ ''/'' @ rest)) =
         filepath_Clean (P @ ''/'' @ rest)"
proof -
  let ?t = "CHR ''/'' # rest"
  let ?X = "A @ ?t"
  define cs where "cs = filter (\<lambda>c. c \<noteq> '''' \<and> c \<noteq> ''.'') (strings_Split rest CHR ''/'')"
  have P_ne: "P \<noteq> []" using P_abs by (simp add: IsAbs_iff)
  have A_rel: "\<not> filepath_IsAbs A" using name by (cases A) (auto simp: IsAbs_iff)
  have nodots: "''..'' \<notin> set (strings_Split rest CHR ''/'')" using segs by auto
  have cs_ok: "\<forall>c \<in> set cs. c \<noteq> '''' \<and> c \<noteq> ''.'' \<and> c \<noteq> ''..'' \<and> CHR ''/'' \<notin> set c"
    using nodots Split_elements [of _ rest "CHR ''/''"] by (auto simp: cs_def)
  have cs_free: "\<forall>c \<in> set cs. keywordsMap a c = None"
    using segs by (simp add: cs_def)

  \<comment> \<open>Parameterize\<close>
  have replaced: "foldl (\<lambda>inp item. strings_ReplaceAll inp (fst item) (snd item)) (P @ ?t)
      (orderedItems keys a) = ?X"
    using rv P_key P_abs keys_abs name(2) others single
    by (intro Parameterize_replaces_leading) simp_all
  have "2 \<le> length ?X" using name(1) by (cases A) auto
  from TrimSuffix_separator [OF this]
  have trim_ne: "strings_TrimSuffix ?X ''/'' \<noteq> []"
    and trim_hd: "hd (strings_TrimSuffix ?X ''/'') = hd ?X"
    and trim_clean: "filepath_Clean (strings_TrimSuffix ?X ''/'') = filepath_Clean ?X"
    by simp_all
  have trim_rel: "\<not> filepath_IsAbs (strings_TrimSuffix ?X ''/'')"
    using trim_ne trim_hd A_rel name(1) by (simp add: IsAbs_iff)
  from Rel_of_relative [OF base trim_rel] obtain e where
    rel: "filepath_Rel basePath (strings_TrimSuffix ?X ''/'') = Inl e" by blast
  have param: "Parameterize keys a basePath (P @ ''/'' @ rest) = filepath_Clean ?X"
    using replaced trim_rel rel trim_clean by (simp add: Parameterize_def Let_def)

  \<comment> \<open>the parameterized path, element by element\<close>
  have "stackOf ?X = rev cs @ [A]"
    using foldl_cleanStep_names [OF nodots, of "filepath_IsAbs A" "[A]"] name
    by (simp add: stackOf_append stackOf_name cs_def)
  moreover have "\<not> filepath_IsAbs ?X" using A_rel name(1) by (simp add: IsAbs_append)
  ultimately have clean_X: "filepath_Clean ?X = strings_Join (A # cs) ''/''"
    by (simp add: Clean_stackOf cleanRender_def)
  have split_X: "strings_Split (filepath_Clean ?X) CHR ''/'' = A # cs"
    unfolding clean_X using cs_ok name(2) by (intro Split_Join) auto

  \<comment> \<open>MakeAbsolute\<close>
  have "\<forall>seg \<in> set (strings_Split (filepath_Clean ?X) CHR ''/''). keywordsMap a seg \<noteq> Some ''''"
    unfolding split_X using fw P_ne cs_free by auto
  then have "MakeAbsolute env a basePath (filepath_Clean ?X) =
      MakeAbsolute_spec env a basePath (filepath_Clean ?X)"
    by (rule MakeAbsolute_refines)
  moreover have "map (substituteSegment a) (A # cs) = P # cs"
    using fw cs_free by (simp add: substituteSegment_def map_idI)
  moreover have "filepath_Join (P # cs) = filepath_Clean (strings_Join (P # cs) ''/'')"
    using P_ne by (simp add: filepath_Join_def)
  moreover have "filepath_Clean (strings_Join (P # cs) ''/'') = filepath_Clean (P @ ?t)"
  proof -
    have "stackOf (P @ ?t) = rev cs @ stackOf P"
      using foldl_cleanStep_names [OF nodots] by (simp add: stackOf_append [OF P_ne] cs_def)
    moreover have "filepath_IsAbs (P @ ?t)" using P_abs P_ne by (simp add: IsAbs_append)
    ultimately show ?thesis
      using Clean_under_directory [OF P_abs cs_ok] by (simp add: Clean_stackOf)
  qed
  moreover have "\<not> filepath_IsAbs (filepath_Clean ?X)"
    using A_rel name(1) by (simp add: IsAbs_append)
  moreover have "filepath_IsAbs (P @ ?t)" using P_abs P_ne by (simp add: IsAbs_append)
  ultimately have "MakeAbsolute env a basePath (filepath_Clean ?X) = filepath_Clean (P @ ?t)"
    by (simp add: MakeAbsolute_spec_def split_X AbsPath_of_clean_absolute Let_def)
  with param show ?thesis by simp
qed

text \<open>The order of the keys used in the evaluations is one the range statement can take.\<close>

lemma sampleKeys_enumerate:
  "dom (keywordsReverse sampleRegistry) = set sampleKeys \<and> distinct sampleKeys"
  by (simp add: sampleRegistry_def sampleKeys_def Assign_def updateKeywords_def withDefaults_def
      Aliases_def sampleCache_def sampleHome_def sampleTemp_def sampleWorkspace_def
      AppDirs_zero_def DirType_defs insert_commute)

theorem roundtrip_under_directory_witness:
  "Parameterize sampleKeys sampleRegistry ''/home/u/ws'' ''/home/u/docs/./notes/'' = ''$HOME/docs/notes'' \<and>
   MakeAbsolute sampleEnv sampleRegistry ''/home/u/ws''
     (Parameterize sampleKeys sampleRegistry ''/home/u/ws'' ''/home/u/docs/./notes/'') =
   ''/home/u/docs/notes'' \<and>
   filepath_Clean ''/home/u/docs/./notes/'' = ''/home/u/docs/notes''"
proof -
  have base: "filepath_IsAbs ''/home/u/ws''" by code_simp
  have P_abs: "filepath_IsAbs ''/home/u''" by code_simp
  have rv: "keywordsReverse sampleRegistry ''/home/u'' = Some ''$HOME''" by code_simp
  have fw: "keywordsMap sampleRegistry ''$HOME'' = Some ''/home/u''" by code_simp
  have P_key: "''/home/u'' \<in> set sampleKeys" by code_simp
  have keys_abs: "\<forall>K \<in> set sampleKeys. filepath_IsAbs K" by code_simp
  have name: "''$HOME'' \<noteq> ''''" "CHR ''/'' \<notin> set ''$HOME''" "''$HOME'' \<noteq> ''.''" "''$HOME'' \<noteq> ''..''"
    by simp_all
  have others: "\<forall>K \<in> set sampleKeys. K \<noteq> ''/home/u'' \<longrightarrow>
      \<not> sublist K (''/home/u'' @ ''/'' @ ''docs/./notes/'')"
    by code_simp
  have single: "\<not> sublist ''/home/u'' (''/'' @ ''docs/./notes/'')" by code_simp
  have segs: "\<forall>c \<in> set (strings_Split ''docs/./notes/'' CHR ''/'').
      c \<noteq> ''..'' \<and> keywordsMap sampleRegistry c = None"
    by code_simp
  have param: "Parameterize sampleKeys sampleRegistry ''/home/u/ws'' ''/home/u/docs/./notes/'' =
      ''$HOME/docs/notes''"
    by code_simp
  have clean: "filepath_Clean ''/home/u/docs/./notes/'' = ''/home/u/docs/notes''"
    by code_simp
  from roundtrip_under_directory [OF base P_abs rv fw P_key keys_abs name others single segs,
      of sampleEnv]
  have "MakeAbsolute sampleEnv sampleRegistry ''/home/u/ws''
     (Parameterize sampleKeys sampleRegistry ''/home/u/ws'' ''/home/u/docs/./notes/'') =
     filepath_Clean ''/home/u/docs/./notes/''"
    by simp
  with param clean show ?thesis by (simp only: simp_thms)
qed

text \<open>
  C3, as stated, fails. The sample registry holds the home directory \<open>/home/u\<close>; the
  path \<open>/home/u/x/home/u/y\<close> lies under it and contains no other registered path, but it
  contains \<open>/home/u\<close> twice. \<open>Parameterize\<close> replaces both occurrences, and \<open>MakeAbsolute\<close>
  expands only the one that is a whole segment.
\<close>

theorem roundtrip_counterexample:
  "prefix ''/home/u/'' ''/home/u/x/home/u/y'' \<and>
   keywordsReverse sampleRegistry ''/home/u'' = Some ''$HOME'' \<and>
   \<not> sublist ''/home/u/ws'' ''/home/u/x/home/u/y'' \<and>
   \<not> sublist ''/tmp/Test'' ''/home/u/x/home/u/y'' \<and>
   \<not> sublist ''/home/u/.cache/Test'' ''/home/u/x/home/u/y'' \<and>
   filepath_Clean ''/home/u/x/home/u/y'' = ''/home/u/x/home/u/y'' \<and>
   MakeAbsolute sampleEnv sampleRegistry ''/home/u/ws''
     (Parameterize sampleKeys sampleRegistry ''/home/u/ws'' ''/home/u/x/home/u/y'') =
   ''/home/u/x$HOME/y'' \<and>
   MakeAbsolute sampleEnv sampleRegistry ''/home/u/ws''
     (Parameterize sampleKeys sampleRegistry ''/home/u/ws'' ''/home/u/x/home/u/y'') \<noteq>
   filepath_Clean ''/home/u/x/home/u/y''"
  by code_simp


end
